theory Spec2Isabelle
  imports Complex_Main "HOL-Library.Sublist" "HOL-Library.AList"
begin

section \<open>Numbers\<close>

text \<open>
  The products service computes with JavaScript numbers: IEEE 754 doubles. A finite double
  is a real number of the form \<open>m * 2^e\<close> with \<open>|m| < 2^53\<close> and \<open>e \<ge> -1074\<close>; the result
  of an arithmetic operation is the exact result rounded to the nearest double, to the one
  with the even significand at a tie. \<open>fl\<close> is that rounding, and every sum, difference,
  product and quotient of the metrics below is written with it. Subnormal results are
  covered; a result of magnitude \<open>2^1024\<close> or more (which becomes an infinity) and the sign
  of zero are not. Comparisons are exact. Literals that are not doubles (0.033, 0.15)
  stand for the nearest double.
\<close>

definition pow2 :: "int \<Rightarrow> real" where
  "pow2 e = (if 0 \<le> e then 2 ^ nat e else 1 / 2 ^ nat (- e))"

text \<open>Rounding to the nearest integer, to the even one at a tie.\<close>

definition rne :: "real \<Rightarrow> int" where
  "rne q =
     (let f = \<lfloor>q\<rfloor>; r = q - of_int f
      in if r < 1 / 2 then f
         else if r > 1 / 2 then f + 1
         else if even f then f else f + 1)"

text \<open>
  The exponent of the last place of a positive number: the \<open>e\<close> with
  \<open>2^52 \<le> y / 2^e < 2^53\<close>, and -1074 for the subnormal numbers. It is searched from 0 by
  halving or doubling, with more steps allowed than the range of a double needs.
\<close>

fun norm_exp :: "nat \<Rightarrow> real \<Rightarrow> int \<Rightarrow> int" where
  "norm_exp 0 y e = e"
| "norm_exp (Suc k) y e =
     (if y \<ge> pow2 53 then norm_exp k (y / 2) (e + 1)
      else if y < pow2 52 \<and> e > - 1074 then norm_exp k (y * 2) (e - 1)
      else e)"

definition fexp :: "real \<Rightarrow> int" where
  "fexp x = norm_exp 2200 \<bar>x\<bar> 0"

definition fl :: "real \<Rightarrow> real" where
  "fl x =
     (if x = 0 then 0
      else sgn x * (of_int (rne (\<bar>x\<bar> / pow2 (fexp x))) * pow2 (fexp x)))"

text \<open>
  The quotient whose divisor a guard has to keep away from zero, the days of stock
  remaining, is given the full range of a JavaScript quotient, so that an unguarded
  division would show as an infinity.
\<close>

datatype jsnum = Num real | PosInfinity | NegInfinity | NaN

definition js_div :: "real \<Rightarrow> real \<Rightarrow> jsnum" where
  "js_div a b =
     (if b \<noteq> 0 then Num (fl (a / b))
      else if a > 0 then PosInfinity
      else if a < 0 then NegInfinity
      else NaN)"

fun js_le :: "jsnum \<Rightarrow> real \<Rightarrow> bool" where
  "js_le (Num x) c = (x \<le> c)"
| "js_le PosInfinity c = False"
| "js_le NegInfinity c = True"
| "js_le NaN c = False"

fun js_gt :: "jsnum \<Rightarrow> real \<Rightarrow> bool" where
  "js_gt (Num x) c = (x > c)"
| "js_gt PosInfinity c = True"
| "js_gt NegInfinity c = False"
| "js_gt NaN c = False"

text \<open>\<open>Math.round\<close> rounds to the nearest integer, a half towards plus infinity.\<close>

definition Math_round :: "real \<Rightarrow> real" where
  "Math_round x = of_int \<lfloor>x + 1 / 2\<rfloor>"

fun js_round :: "jsnum \<Rightarrow> jsnum" where
  "js_round (Num x) = Num (Math_round x)"
| "js_round d = d"

fun js_ceil :: "jsnum \<Rightarrow> jsnum" where
  "js_ceil (Num x) = Num (of_int \<lceil>x\<rceil>)"
| "js_ceil d = d"

definition Math_ceil :: "real \<Rightarrow> real" where
  "Math_ceil x = of_int \<lceil>x\<rceil>"

text \<open>The idiom \<open>Math.round(x * 100) / 100\<close> of the service.\<close>

definition round2 :: "real \<Rightarrow> real" where
  "round2 x = fl (Math_round (fl (x * 100)) / 100)"

text \<open>
  \<open>x.toFixed(n)\<close>, as the number its digits denote: the multiple of \<open>10^-n\<close> nearest to
  the exact value of the double, the larger one at a tie, on the absolute value; the sign
  is put back in front.
\<close>

definition toFixed :: "nat \<Rightarrow> real \<Rightarrow> real" where
  "toFixed n x =
     (if x < 0 then - (of_int \<lfloor>(- x) * 10 ^ n + 1 / 2\<rfloor> / 10 ^ n)
      else of_int \<lfloor>x * 10 ^ n + 1 / 2\<rfloor> / 10 ^ n)"

text \<open>
  A template literal is kept as its pieces: the literal text, and for each interpolated
  number the value that is printed.
\<close>

datatype piece = Str string | Val real | Days jsnum

section \<open>Constants (product.constants.ts)\<close>

definition MILLISECONDS_PER_DAY :: real where
  "MILLISECONDS_PER_DAY = 1000 * 60 * 60 * 24"

definition DAYS_PER_MONTH :: real where
  "DAYS_PER_MONTH = 30"

definition MINIMUM_MONTHS_LIVE :: real where
  "MINIMUM_MONTHS_LIVE = fl (33 / 1000)"

definition STALE_PERCENTAGE :: real where
  "STALE_PERCENTAGE = 10"

definition PREDEFINED_CATEGORIES :: "string list" where
  "PREDEFINED_CATEGORIES = [''furniture'', ''fashion'', ''food'', ''fitness'', ''electronics'']"

definition CATEGORY_MAPPING :: "(string \<times> string) list" where
  "CATEGORY_MAPPING =
     [(''clothing'', ''fashion''), (''accessories'', ''fashion''),
      (''electronics'', ''electronics''), (''home'', ''home''), (''sports'', ''fitness''),
      (''health'', ''health''), (''beauty'', ''beauty''), (''toys'', ''toys''),
      (''books'', ''books''), (''automotive'', ''automotive'')]"

section \<open>Percentage-based stale analysis\<close>

text \<open>
  Dates are their \<open>getTime()\<close>: milliseconds since the epoch. The threshold is always
  passed by the caller; the default of the parameter is \<open>STALE_PERCENTAGE\<close>.
\<close>

record PercentageBasedStaleAnalysis =
  is_stale :: bool
  sa_monthly_sales_rate :: real
  percent_sold_per_month :: real
  months_live :: real
  threshold_percent_used :: real
  calculation_method :: "piece list"

definition calculatePercentageBasedStaleAnalysis ::
  "real \<Rightarrow> real \<Rightarrow> int \<Rightarrow> int \<Rightarrow> real \<Rightarrow> PercentageBasedStaleAnalysis" where
  "calculatePercentageBasedStaleAnalysis unitsSold totalInventoryAdded publishDate currentDate
       thresholdPercent =
     (let daysLive =
            Math_ceil (fl (fl (of_int currentDate - of_int publishDate) / MILLISECONDS_PER_DAY));
          monthsLive = max (fl (daysLive / DAYS_PER_MONTH)) MINIMUM_MONTHS_LIVE;
          monthlySalesRate = fl (unitsSold / monthsLive);
          percentSoldPerMonth =
            (if totalInventoryAdded > 0
             then fl (fl (monthlySalesRate / totalInventoryAdded) * 100)
             else 0);
          isStale = (percentSoldPerMonth < thresholdPercent)
      in \<lparr> is_stale = isStale,
           sa_monthly_sales_rate = round2 monthlySalesRate,
           percent_sold_per_month = round2 percentSoldPerMonth,
           months_live = round2 monthsLive,
           threshold_percent_used = thresholdPercent,
           calculation_method =
             [Str ''Percentage-based: '', Val (toFixed 2 percentSoldPerMonth), Str ''% vs '',
              Val thresholdPercent, Str ''% threshold''] \<rparr>)"

section \<open>Data model\<close>

text \<open>
  The Shopify resources, with the fields the analytics read. Identifiers are natural
  numbers (\<open>variant_ident\<close> is the variant's \<open>id\<close>), a line item's quantity is a count
  and its price a number, the inventory quantity is an integer, which Shopify reports
  below 0 for an oversold variant. Counts and their sums are exact (as they are in
  doubles below \<open>2^53\<close>). A field the code reads through \<open>|| 0\<close> is an option;
  the variant's \<open>price\<close> is the parsed number, \<open>None\<close> when \<open>parseFloat\<close> gives no
  number. Missing \<open>line_items\<close> are the empty list.
\<close>

record line_item =
  variant_id :: nat
  quantity :: "nat option"
  item_price :: real

record order =
  created_at :: int
  line_items :: "line_item list"

record variant =
  variant_ident :: nat
  price :: "real option"
  inventory_quantity :: "int option"

record product =
  published_at :: "int option"
  product_created_at :: int
  product_type :: "string option"
  tags :: "string option"

datatype suggestion_type =
    CRITICAL_INVENTORY | LOW_INVENTORY | INVENTORY_WARNING | OVERSTOCK
  | NO_SALES | POOR_PERFORMANCE | BELOW_TARGET | HIGH_PERFORMER
  | DECLINING_TREND | POSITIVE_MOMENTUM
  | PRICING_OPPORTUNITY | SEASONAL_PLANNING | BUNDLING_OPPORTUNITY

datatype priority_level = URGENT | HIGH | MEDIUM | LOW | CRITICAL

record suggestion =
  stype :: suggestion_type
  action :: "piece list"
  reason :: "piece list"
  priority :: priority_level

record performance_summary =
  ps_monthly_sales_rate :: real
  stale_threshold_used :: real
  inventory_status :: string
  trend :: string

record suggestion_output =
  total_suggestions :: nat
  suggestions :: "suggestion list"
  summary :: performance_summary

section \<open>Suggestion engine\<close>

definition getSimpleInventoryStatus :: "jsnum \<Rightarrow> real \<Rightarrow> string" where
  "getSimpleInventoryStatus daysRemaining currentStock =
     (if currentStock = 0 then ''OUT_OF_STOCK''
      else if js_le daysRemaining 7 then ''CRITICAL_LOW''
      else if js_le daysRemaining 30 then ''LOW''
      else if js_le daysRemaining 90 then ''OPTIMAL''
      else if js_le daysRemaining 180 then ''HIGH''
      else ''OVERSTOCKED'')"

text \<open>
  \<open>generateVariantSuggestions\<close> pushes onto one array, rule after rule. Each rule is
  given here as the list it pushes (empty or one suggestion); the function appends them
  in the source's order. The thresholds of the rules are compared as exact numbers: the
  bounds 7, 30, 90, 180, 0.5 and twice the threshold are exact in doubles, no double lies
  between 0.3 and its nearest double, and the product \<open>staleThreshold * 0.3\<close> is taken as
  three tenths of the threshold.
\<close>

definition inventory_rule :: "real \<Rightarrow> jsnum \<Rightarrow> suggestion list" where
  "inventory_rule currentInventory daysOfStockRemaining =
     (if currentInventory = 0 then
        [\<lparr> stype = CRITICAL_INVENTORY,
           action = [Str ''Emergency restock required immediately''],
           reason = [Str ''Product is out of stock''],
           priority = URGENT \<rparr>]
      else if js_le daysOfStockRemaining 7 then
        [\<lparr> stype = LOW_INVENTORY,
           action = [Str ''Reorder immediately - only '', Days (js_round daysOfStockRemaining),
                     Str '' days of stock remaining''],
           reason = [Str ''Critical low inventory level''],
           priority = HIGH \<rparr>]
      else if js_le daysOfStockRemaining 30 then
        [\<lparr> stype = INVENTORY_WARNING,
           action = [Str ''Plan reorder within 1 week - '', Days (js_round daysOfStockRemaining),
                     Str '' days remaining''],
           reason = [Str ''Low inventory approaching''],
           priority = MEDIUM \<rparr>]
      else if js_gt daysOfStockRemaining 180 then
        [\<lparr> stype = OVERSTOCK,
           action = [Str ''Consider clearance strategy - excess inventory detected''],
           reason = [Days (js_round daysOfStockRemaining), Str '' days of stock remaining''],
           priority = MEDIUM \<rparr>]
      else [])"

definition performance_rule :: "real \<Rightarrow> real \<Rightarrow> suggestion list" where
  "performance_rule monthlySalesRate staleThreshold =
     (if monthlySalesRate = 0 then
        [\<lparr> stype = NO_SALES,
           action = [Str ''Apply 40-50% discount or consider discontinuation''],
           reason = [Str ''No sales recorded in analysis period''],
           priority = CRITICAL \<rparr>]
      else if monthlySalesRate < staleThreshold * (3 / 10) then
        [\<lparr> stype = POOR_PERFORMANCE,
           action = [Str ''Apply 25-35% discount and run targeted ads''],
           reason = [Str ''Very low sales rate: '', Val (toFixed 1 monthlySalesRate),
                     Str '' units/month''],
           priority = HIGH \<rparr>]
      else if monthlySalesRate < staleThreshold then
        [\<lparr> stype = BELOW_TARGET,
           action = [Str ''Apply 15-20% discount and optimize product visibility''],
           reason = [Str ''Below target sales rate: '', Val (toFixed 1 monthlySalesRate),
                     Str '' units/month (target: '', Val staleThreshold, Str '')''],
           priority = MEDIUM \<rparr>]
      else if monthlySalesRate \<ge> staleThreshold * 2 then
        [\<lparr> stype = HIGH_PERFORMER,
           action = [Str ''Test 10-15% price increase and scale marketing''],
           reason = [Str ''Excellent sales rate: '', Val (toFixed 1 monthlySalesRate),
                     Str '' units/month''],
           priority = LOW \<rparr>]
      else [])"

definition trend_rule :: "real \<Rightarrow> suggestion list" where
  "trend_rule salesAcceleration =
     (if salesAcceleration < - (3 / 10) then
        [\<lparr> stype = DECLINING_TREND,
           action = [Str ''Investigate cause and implement recovery strategy''],
           reason = [Str ''Rapidly declining sales trend detected''],
           priority = HIGH \<rparr>]
      else if salesAcceleration > 3 / 10 then
        [\<lparr> stype = POSITIVE_MOMENTUM,
           action = [Str ''Increase marketing budget to capitalize on momentum''],
           reason = [Str ''Strong positive sales trend detected''],
           priority = MEDIUM \<rparr>]
      else [])"

definition pricing_rule :: "real \<Rightarrow> real \<Rightarrow> real \<Rightarrow> suggestion list" where
  "pricing_rule monthlySalesRate staleThreshold price_now =
     (if monthlySalesRate \<ge> staleThreshold \<and> price_now > 0 then
        (let potentialIncrease =
               fl (Math_round (fl (fl (price_now * fl (15 / 100)) * 100)) / 100)
         in [\<lparr> stype = PRICING_OPPORTUNITY,
                action = [Str ''Test price increase to $'',
                          Val (toFixed 2 (fl (price_now + potentialIncrease)))],
                reason = [Str ''Strong demand indicates pricing power''],
                priority = LOW \<rparr>])
      else [])"

definition seasonal_rule :: "real \<Rightarrow> suggestion list" where
  "seasonal_rule seasonalityScore =
     (if seasonalityScore > 1 / 2 then
        [\<lparr> stype = SEASONAL_PLANNING,
           action = [Str ''Plan seasonal inventory and marketing campaigns''],
           reason = [Str ''High seasonality pattern detected''],
           priority = MEDIUM \<rparr>]
      else [])"

definition bundling_rule :: "real \<Rightarrow> real \<Rightarrow> real \<Rightarrow> suggestion list" where
  "bundling_rule monthlySalesRate staleThreshold totalRevenue =
     (if monthlySalesRate < staleThreshold \<and> totalRevenue > 0 then
        [\<lparr> stype = BUNDLING_OPPORTUNITY,
           action = [Str ''Create bundles with popular products''],
           reason = [Str ''Slow sales could benefit from bundling strategy''],
           priority = MEDIUM \<rparr>]
      else [])"

text \<open>
  The result carries the suggestions and the performance summary (without its
  \<open>vs_threshold\<close> text); the \<open>threshold_explanation\<close> block is descriptive and is left
  out. The parameters the source passes only to that block stay in the signature.
\<close>

definition generateVariantSuggestions ::
  "variant \<Rightarrow> product \<Rightarrow> real \<Rightarrow> real \<Rightarrow> real \<Rightarrow> jsnum \<Rightarrow> real \<Rightarrow> real \<Rightarrow> real \<Rightarrow> real \<Rightarrow>
   PercentageBasedStaleAnalysis option \<Rightarrow> nat option \<Rightarrow> suggestion_output" where
  "generateVariantSuggestions v parent monthlySalesRate staleThreshold currentInventory
       daysOfStockRemaining totalRevenue monthsLive salesAcceleration seasonalityScore
       staleAnalysis totalQuantitySold =
     (let price_now = (case price v of None \<Rightarrow> 0 | Some x \<Rightarrow> x);
          found =
            inventory_rule currentInventory daysOfStockRemaining
            @ performance_rule monthlySalesRate staleThreshold
            @ trend_rule salesAcceleration
            @ pricing_rule monthlySalesRate staleThreshold price_now
            @ seasonal_rule seasonalityScore
            @ bundling_rule monthlySalesRate staleThreshold totalRevenue
      in \<lparr> total_suggestions = length found,
           suggestions = found,
           summary =
             \<lparr> ps_monthly_sales_rate = monthlySalesRate,
               stale_threshold_used = staleThreshold,
               inventory_status = getSimpleInventoryStatus daysOfStockRemaining currentInventory,
               trend =
                 (if salesAcceleration > 1 / 10 then ''IMPROVING''
                  else if salesAcceleration < - (1 / 10) then ''DECLINING''
                  else ''STABLE'') \<rparr> \<rparr>)"

text \<open>The types of the suggestions of an output, in order.\<close>

definition suggestion_types :: "suggestion_output \<Rightarrow> suggestion_type list" where
  "suggestion_types out = map stype (suggestions out)"

definition performance_types :: "suggestion_type list" where
  "performance_types = [NO_SALES, POOR_PERFORMANCE, BELOW_TARGET, HIGH_PERFORMER]"

definition inventory_types :: "suggestion_type list" where
  "inventory_types = [CRITICAL_INVENTORY, LOW_INVENTORY, INVENTORY_WARNING, OVERSTOCK]"

definition count_of :: "suggestion_type list \<Rightarrow> suggestion_output \<Rightarrow> nat" where
  "count_of kinds out = length (filter (\<lambda>k. k \<in> set kinds) (suggestion_types out))"

section \<open>Variant metrics\<close>

text \<open>
  The accumulation over the orders: the outer \<open>forEach\<close> over the orders and the inner
  one over the line items update four variables; they are the fields of the state that
  the two folds thread.
\<close>

record sales_totals =
  totalQuantitySold :: nat
  totalRevenue :: real
  firstSaleDate :: "int option"
  lastSaleDate :: "int option"

definition units :: "line_item \<Rightarrow> nat" where
  "units item = (case quantity item of None \<Rightarrow> 0 | Some q \<Rightarrow> q)"

definition add_line_item :: "nat \<Rightarrow> int \<Rightarrow> sales_totals \<Rightarrow> line_item \<Rightarrow> sales_totals" where
  "add_line_item vid orderDate acc item =
     (if variant_id item = vid then
        \<lparr> totalQuantitySold = totalQuantitySold acc + units item,
          totalRevenue = fl (totalRevenue acc + fl (item_price item * real (units item))),
          firstSaleDate =
            (case firstSaleDate acc of
               None \<Rightarrow> Some orderDate
             | Some f \<Rightarrow> if orderDate < f then Some orderDate else Some f),
          lastSaleDate =
            (case lastSaleDate acc of
               None \<Rightarrow> Some orderDate
             | Some l \<Rightarrow> if orderDate > l then Some orderDate else Some l) \<rparr>
      else acc)"

definition add_order :: "nat \<Rightarrow> sales_totals \<Rightarrow> order \<Rightarrow> sales_totals" where
  "add_order vid acc ord = foldl (add_line_item vid (created_at ord)) acc (line_items ord)"

definition sales_of_orders :: "nat \<Rightarrow> order list \<Rightarrow> sales_totals" where
  "sales_of_orders vid orders =
     foldl (add_order vid)
       \<lparr> totalQuantitySold = 0, totalRevenue = 0, firstSaleDate = None, lastSaleDate = None \<rparr>
       orders"

text \<open>\<open>order.line_items.some(item => item.variant_id == variantId)\<close>\<close>

definition has_variant :: "nat \<Rightarrow> order \<Rightarrow> bool" where
  "has_variant vid ord = list_ex (\<lambda>item. variant_id item = vid) (line_items ord)"

text \<open>The inner \<open>filter(...).reduce(...)\<close>: the units of the variant in one order.\<close>

definition variant_units :: "nat \<Rightarrow> order \<Rightarrow> nat" where
  "variant_units vid ord =
     foldl (\<lambda>itemSum item. itemSum + units item) 0
       (filter (\<lambda>item. variant_id item = vid) (line_items ord))"

definition half_sales :: "nat \<Rightarrow> order list \<Rightarrow> nat" where
  "half_sales vid half = foldl (\<lambda>sum ord. sum + variant_units vid ord) 0 half"

definition half_days :: "order list \<Rightarrow> real" where
  "half_days half =
     (if length half > 0
      then fl (fl (of_int (created_at (last half)) - of_int (created_at (hd half)))
               / (1000 * 60 * 60 * 24))
      else 1)"

definition calculateSalesAcceleration :: "order list \<Rightarrow> nat \<Rightarrow> real" where
  "calculateSalesAcceleration orders variantId =
     (let variantOrders = sort_key created_at (filter (has_variant variantId) orders)
      in if length variantOrders < 2 then 0
         else
           (let midPoint = length variantOrders div 2;
                firstHalf = take midPoint variantOrders;
                secondHalf = drop midPoint variantOrders;
                firstHalfSales = half_sales variantId firstHalf;
                secondHalfSales = half_sales variantId secondHalf;
                firstHalfDays = half_days firstHalf;
                secondHalfDays = half_days secondHalf;
                firstHalfRate = fl (real firstHalfSales / max firstHalfDays 1);
                secondHalfRate = fl (real secondHalfSales / max secondHalfDays 1)
            in if firstHalfRate > 0
               then fl (fl (secondHalfRate - firstHalfRate) / firstHalfRate)
               else 0))"

text \<open>
  \<open>salesByMonth\<close> is an object keyed by \<open>getMonth()\<close> of the order's date; the calendar
  (and the time zone it reads) is the parameter \<open>getMonth\<close>. The object is an association
  list, \<open>Object.values\<close> its values. \<open>Math.pow(x, 2)\<close> and \<open>Math.sqrt\<close> are taken as
  correctly rounded.
\<close>

definition add_month_sale :: "nat \<Rightarrow> nat \<Rightarrow> (nat \<times> nat) list \<Rightarrow> line_item \<Rightarrow> (nat \<times> nat) list" where
  "add_month_sale vid month salesByMonth item =
     (if variant_id item = vid then
        AList.update month
          ((case map_of salesByMonth month of None \<Rightarrow> 0 | Some n \<Rightarrow> n) + units item)
          salesByMonth
      else salesByMonth)"

definition calculateSeasonalityScore :: "(int \<Rightarrow> nat) \<Rightarrow> order list \<Rightarrow> nat \<Rightarrow> real" where
  "calculateSeasonalityScore getMonth orders variantId =
     (let salesByMonth =
            foldl (\<lambda>acc ord.
                     foldl (add_month_sale variantId (getMonth (created_at ord))) acc
                       (line_items ord))
              [] orders;
          monthlyValues = map (\<lambda>kv. real (snd kv)) salesByMonth
      in if length monthlyValues < 2 then 0
         else
           (let mean =
                  fl (foldl (\<lambda>sum val. fl (sum + val)) 0 monthlyValues
                      / real (length monthlyValues));
                variance =
                  fl (foldl (\<lambda>sum val. fl (sum + fl ((fl (val - mean)) ^ 2))) 0 monthlyValues
                      / real (length monthlyValues))
            in if mean > 0 then fl (fl (sqrt variance) / mean) else 0))"

text \<open>
  The record returned by \<open>calculateFocusedVariantAnalytics\<close>, with the fields that come
  out of the orders, the dates and the inventory. The identifying and descriptive fields
  (sku, category, weight, timestamps) copy their inputs and are left out.
\<close>

record variant_analytics =
  current_quantity :: int
  estimated_initial_quantity :: int
  total_quantity_sold :: nat
  inventory_turnover_rate :: real
  monthly_sales_rate :: real
  daily_sales_rate :: real
  total_revenue :: real
  total_orders :: nat
  days_live :: real
  is_stale_flag :: nat
  stockout_risk :: nat
  percent_sold_per_month_out :: real
  threshold_percent_used_out :: real
  days_of_stock_remaining :: jsnum
  sales_acceleration :: real
  seasonality_score :: real
  intelligent_suggestions :: suggestion_output

text \<open>
  The days of stock remaining, as the source computes them:
  \<open>averageDailySales > 0 ? currentInventory / averageDailySales : 0\<close>.
\<close>

definition daysOfStockRemaining_of :: "real \<Rightarrow> real \<Rightarrow> jsnum" where
  "daysOfStockRemaining_of currentInventory averageDailySales =
     (if averageDailySales > 0 then js_div currentInventory averageDailySales else Num 0)"

text \<open>
  \<open>new Date()\<close> is the parameter \<open>now\<close>. \<open>staleThreshold || 10\<close> takes 10 for a missing
  threshold and for 0.
\<close>

definition calculateFocusedVariantAnalytics ::
  "(int \<Rightarrow> nat) \<Rightarrow> int \<Rightarrow> variant \<Rightarrow> order list \<Rightarrow> product \<Rightarrow> real option \<Rightarrow> variant_analytics" where
  "calculateFocusedVariantAnalytics getMonth now v orders parent staleThreshold =
     (let sales = sales_of_orders (variant_ident v) orders;
          publishedAt =
            (case published_at parent of None \<Rightarrow> product_created_at parent | Some d \<Rightarrow> d);
          currentDate = now;
          daysLive =
            Math_ceil (fl (fl (of_int currentDate - of_int publishedAt) / (1000 * 60 * 60 * 24)));
          monthsLive = fl (daysLive / 30);
          currentInventory = (case inventory_quantity v of None \<Rightarrow> 0 | Some q \<Rightarrow> q);
          estimatedInitialInventory = currentInventory + int (totalQuantitySold sales);
          monthlySalesRate =
            (if monthsLive > 0 then fl (real (totalQuantitySold sales) / monthsLive) else 0);
          thresholdPercent =
            (case staleThreshold of None \<Rightarrow> 10 | Some t \<Rightarrow> if t = 0 then 10 else t);
          staleAnalysis =
            calculatePercentageBasedStaleAnalysis (real (totalQuantitySold sales))
              (of_int estimatedInitialInventory) publishedAt currentDate thresholdPercent;
          averageDailySales =
            (if daysLive > 0 then fl (real (totalQuantitySold sales) / daysLive) else 0);
          daysOfStockRemaining =
            daysOfStockRemaining_of (of_int currentInventory) averageDailySales;
          inventoryTurnoverRate =
            (if estimatedInitialInventory > 0
             then fl (real (totalQuantitySold sales) / of_int estimatedInitialInventory)
             else 0);
          stockoutRisk = (if js_le daysOfStockRemaining 30 then 1 else 0);
          salesAcceleration = calculateSalesAcceleration orders (variant_ident v);
          seasonalityScore = calculateSeasonalityScore getMonth orders (variant_ident v);
          found =
            generateVariantSuggestions v parent monthlySalesRate thresholdPercent
              (of_int currentInventory) daysOfStockRemaining (totalRevenue sales) monthsLive
              salesAcceleration seasonalityScore (Some staleAnalysis)
              (Some (totalQuantitySold sales))
      in \<lparr> current_quantity = currentInventory,
           estimated_initial_quantity = estimatedInitialInventory,
           total_quantity_sold = totalQuantitySold sales,
           inventory_turnover_rate = round2 inventoryTurnoverRate,
           monthly_sales_rate = round2 monthlySalesRate,
           daily_sales_rate = round2 averageDailySales,
           total_revenue = round2 (totalRevenue sales),
           total_orders = length orders,
           days_live = daysLive,
           is_stale_flag = (if is_stale staleAnalysis then 1 else 0),
           stockout_risk = stockoutRisk,
           percent_sold_per_month_out = percent_sold_per_month staleAnalysis,
           threshold_percent_used_out = threshold_percent_used staleAnalysis,
           days_of_stock_remaining = js_round daysOfStockRemaining,
           sales_acceleration = round2 salesAcceleration,
           seasonality_score = round2 seasonalityScore,
           intelligent_suggestions = found \<rparr>)"

section \<open>Stock status\<close>

text \<open>
  \<open>calculateStockStatus\<close>, with its two arguments as numbers (\<open>|| 0\<close> leaves a number as
  it is). The quotient is taken only under \<open>dailySales > 0\<close>.
\<close>

record stock_status =
  status :: string
  daysRemaining :: jsnum
  reorderRecommended :: bool

definition calculateStockStatus :: "real \<Rightarrow> real \<Rightarrow> stock_status" where
  "calculateStockStatus currentStock averageDailySales =
     (let stock = currentStock; dailySales = averageDailySales
      in if stock = 0 then
           \<lparr> status = ''out_of_stock'', daysRemaining = js_round (Num 0),
             reorderRecommended = True \<rparr>
         else if dailySales > 0 then
           (let days = js_ceil (js_div stock dailySales)
            in if js_le days 7 then
                 \<lparr> status = ''low_stock'', daysRemaining = js_round days,
                   reorderRecommended = True \<rparr>
               else if js_le days 30 then
                 \<lparr> status = ''moderate_stock'', daysRemaining = js_round days,
                   reorderRecommended = False \<rparr>
               else
                 \<lparr> status = ''high_stock'', daysRemaining = js_round days,
                   reorderRecommended = False \<rparr>)
         else
           \<lparr> status =
               (if stock < 10 then ''low_stock''
                else if stock < 50 then ''moderate_stock''
                else ''high_stock''),
             daysRemaining = js_round (Num 0),
             reorderRecommended = False \<rparr>)"

section \<open>Category resolver\<close>

text \<open>
  \<open>toLowerCase\<close> on the letters A to Z; \<open>js_includes\<close> is \<open>String.prototype.includes\<close>, the substring test.
\<close>

definition lower_char :: "char \<Rightarrow> char" where
  "lower_char c =
     (case map_of (zip ''ABCDEFGHIJKLMNOPQRSTUVWXYZ'' ''abcdefghijklmnopqrstuvwxyz'') c of
        None \<Rightarrow> c
      | Some l \<Rightarrow> l)"

definition toLowerCase :: "string \<Rightarrow> string" where
  "toLowerCase s = map lower_char s"

fun js_includes :: "string \<Rightarrow> string \<Rightarrow> bool" where
  "js_includes [] sub = (sub = [])"
| "js_includes (c # cs) sub = (prefix sub (c # cs) \<or> js_includes cs sub)"

definition getCategoryFromTags :: "string option \<Rightarrow> string option" where
  "getCategoryFromTags tags_opt =
     (case tags_opt of
        None \<Rightarrow> None
      | Some t \<Rightarrow>
          if t = [] then None
          else find (\<lambda>category. js_includes (toLowerCase t) category) PREDEFINED_CATEGORIES)"

text \<open>
  \<open>CATEGORY_MAPPING\<close> is an object literal. Reading a property of it finds the keys it
  declares and, after them, the members every object inherits from \<open>Object.prototype\<close>;
  those are objects or functions, not strings. A read that finds nothing is \<open>undefined\<close>.
\<close>

datatype js_value = JString string | JObject string

definition Object_prototype_names :: "string list" where
  "Object_prototype_names =
     [''constructor'', ''__proto__'', ''hasOwnProperty'', ''isPrototypeOf'',
      ''propertyIsEnumerable'', ''toLocaleString'', ''toString'', ''valueOf'',
      ''__defineGetter__'', ''__defineSetter__'', ''__lookupGetter__'', ''__lookupSetter__'']"

definition property_read :: "(string \<times> string) list \<Rightarrow> string \<Rightarrow> js_value option" where
  "property_read obj key =
     (case map_of obj key of
        Some v \<Rightarrow> Some (JString v)
      | None \<Rightarrow> if key \<in> set Object_prototype_names then Some (JObject key) else None)"

text \<open>
  \<open>CATEGORY_MAPPING[productType?.toLowerCase()] || "general"\<close>. A missing product type
  reads the key \<open>undefined\<close>, which nothing declares. Every value a read can find is
  truthy.
\<close>

definition getProductCategory :: "string option \<Rightarrow> js_value" where
  "getProductCategory productType =
     (case productType of
        None \<Rightarrow> JString ''general''
      | Some pt \<Rightarrow>
          (case property_read CATEGORY_MAPPING (toLowerCase pt) of
             None \<Rightarrow> JString ''general''
           | Some c \<Rightarrow> c))"

text \<open>
  The classification endpoint is an external service. One call to it ends in one of four
  ways: \<open>fetch\<close> rejects, the response is not \<open>ok\<close>, the body is not JSON, or a JSON
  object arrives, of which the resolver reads six places. The environment holds the
  configured base URL and what the endpoint does when called.
\<close>

record ai_response =
  categories_in_training_data :: "string list option"
  category :: "string option"
  data_category :: "string option"
  predicted_category :: "string option"
  classification :: "string option"
  result_category :: "string option"

datatype fetch_outcome = Rejected | NotOk | BadJson | Json ai_response

datatype js_error = FetchError | ApiError | SyntaxError | UpstreamError

record environment =
  AI_CATEGORY_API_BASE_URL :: "string option"
  classify_existing_categories :: fetch_outcome

text \<open>The first truthy value of a chain of \<open>||\<close>: a string that is present and not empty.\<close>

fun first_truthy :: "string option list \<Rightarrow> string option" where
  "first_truthy [] = None"
| "first_truthy (None # rest) = first_truthy rest"
| "first_truthy (Some s # rest) = (if s = [] then first_truthy rest else Some s)"

definition extract_category :: "ai_response \<Rightarrow> string option" where
  "extract_category r =
     first_truthy
       [(case categories_in_training_data r of
           None \<Rightarrow> None | Some [] \<Rightarrow> None | Some (c # _) \<Rightarrow> Some c),
        category r, data_category r, predicted_category r, classification r,
        result_category r]"

text \<open>
  The body of the \<open>try\<close> block after the tag check: the value it returns, or the
  exception it throws, with the number of calls made to the endpoint.
\<close>

definition classify_with_ai :: "environment \<Rightarrow> product \<Rightarrow> (js_error + js_value) \<times> nat" where
  "classify_with_ai env p =
     (case AI_CATEGORY_API_BASE_URL env of
        None \<Rightarrow> (Inr (getProductCategory (product_type p)), 0)
      | Some url \<Rightarrow>
          if url = [] then (Inr (getProductCategory (product_type p)), 0)
          else
            (case classify_existing_categories env of
               Rejected \<Rightarrow> (Inl FetchError, 1)
             | NotOk \<Rightarrow> (Inl ApiError, 1)
             | BadJson \<Rightarrow> (Inl SyntaxError, 1)
             | Json r \<Rightarrow>
                 (case extract_category r of
                    Some aiCategory \<Rightarrow> (Inr (JString aiCategory), 1)
                  | None \<Rightarrow> (Inr (getProductCategory (product_type p)), 1))))"

text \<open>
  \<open>getProductCategoryFromAI\<close>: the tag check, then the endpoint, the \<open>catch\<close> block
  turning every exception into the local mapping. The result is what the function
  returns or throws, and the number of calls made to the endpoint.
\<close>

definition getProductCategoryFromAI :: "environment \<Rightarrow> product \<Rightarrow> (js_error + js_value) \<times> nat" where
  "getProductCategoryFromAI env p =
     (case getCategoryFromTags (tags p) of
        Some categoryFromTags \<Rightarrow> (Inr (JString categoryFromTags), 0)
      | None \<Rightarrow>
          (case classify_with_ai env p of
             (Inl err, calls) \<Rightarrow> (Inr (getProductCategory (product_type p)), calls)
           | (Inr c, calls) \<Rightarrow> (Inr c, calls)))"

section \<open>Fetching all products\<close>

text \<open>
  The Shopify client is external. A call \<open>client.get\<close> either throws or returns the
  products of a page and the \<open>Link\<close> header, taken here as \<open>extractPagination\<close> reads it:
  the \<open>page_info\<close> of its \<open>rel="next"\<close> link, if there is one, or a header that makes
  \<open>new URL\<close> throw. The client may answer differently at every call: it is a function of
  the number of calls made before and of the \<open>page_info\<close> sent.
\<close>

datatype link_header = Links "string option" | BadUrl

record 'p page_response =
  products :: "'p list"
  link :: link_header

type_synonym 'p client = "nat \<Rightarrow> string option \<Rightarrow> js_error + 'p page_response"

record pagination =
  hasNext :: bool
  nextPageInfo :: "string option"

definition extractPagination :: "link_header \<Rightarrow> js_error + pagination" where
  "extractPagination h =
     (case h of
        BadUrl \<Rightarrow> Inl UpstreamError
      | Links nxt \<Rightarrow>
          (case nxt of
             None \<Rightarrow> Inr \<lparr> hasNext = False, nextPageInfo = None \<rparr>
           | Some i \<Rightarrow>
               if i = [] then Inr \<lparr> hasNext = False, nextPageInfo = None \<rparr>
               else Inr \<lparr> hasNext = True, nextPageInfo = Some i \<rparr>))"

record 'p fetch_state =
  allProducts :: "'p list"
  pageInfo :: "string option"
  hasNextPage :: bool
  pageCount :: nat

text \<open>
  The \<open>while\<close> loop. The result is the number of calls made to \<open>client.get\<close> and either
  the final state or the exception that left the loop.
\<close>

function getAllProducts_loop :: "'p client \<Rightarrow> 'p fetch_state \<Rightarrow> nat \<times> (js_error + 'p fetch_state)" where
  "getAllProducts_loop client s =
     (if hasNextPage s \<and> pageCount s < 50 then
        (case client (pageCount s) (if pageInfo s = Some [] then None else pageInfo s) of
           Inl err \<Rightarrow> (pageCount s + 1, Inl err)
         | Inr response \<Rightarrow>
             (case extractPagination (link response) of
                Inl err \<Rightarrow> (pageCount s + 1, Inl err)
              | Inr pg \<Rightarrow>
                  getAllProducts_loop client
                    \<lparr> allProducts = allProducts s @ products response,
                      pageInfo = nextPageInfo pg,
                      hasNextPage =
                        (if length (products response) < 250 then False else hasNext pg),
                      pageCount = pageCount s + 1 \<rparr>))
      else (pageCount s, Inr s))"
  by pat_completeness auto
termination
  by (relation "measure (\<lambda>(client, s). 50 - pageCount s)") auto

declare getAllProducts_loop.simps [simp del]

definition getAllProducts :: "'p client \<Rightarrow> nat \<times> (js_error + 'p list)" where
  "getAllProducts client =
     (case getAllProducts_loop client
             \<lparr> allProducts = [], pageInfo = None, hasNextPage = True, pageCount = 0 \<rparr> of
        (calls, Inl err) \<Rightarrow> (calls, Inl err)
      | (calls, Inr s) \<Rightarrow> (calls, Inr (allProducts s)))"

section \<open>Auxiliary notions for the results\<close>

text \<open>The line items of the given variant, over all the orders, in order.\<close>

definition matching_items :: "nat \<Rightarrow> order list \<Rightarrow> line_item list" where
  "matching_items vid orders =
     concat (map (\<lambda>ord. filter (\<lambda>i. variant_id i = vid) (line_items ord)) orders)"

section \<open>Rounding to the nearest double\<close>

lemma pow2_powi: "pow2 e = 2 powi e"
  by (simp add: pow2_def power_int_def field_simps)

lemma pow2_pos [simp]: "0 < pow2 e"
  by (simp add: pow2_powi)

lemma pow2_nonzero [simp]: "pow2 e \<noteq> 0"
  using pow2_pos [of e] by linarith

lemma pow2_nonneg [simp]: "0 \<le> pow2 e"
  using pow2_pos [of e] by linarith

lemma pow2_abs [simp]: "\<bar>pow2 e\<bar> = pow2 e"
  by simp

lemma pow2_add: "pow2 (a + b) = pow2 a * pow2 b"
  by (simp add: pow2_powi power_int_add)

lemma pow2_0 [simp]: "pow2 0 = 1"
  by (simp add: pow2_def)

lemma pow2_Suc: "pow2 (e + 1) = 2 * pow2 e"
  using pow2_add [of e 1] by (simp add: pow2_def)

lemma pow2_pred: "pow2 (e - 1) = pow2 e / 2"
  using pow2_Suc [of "e - 1"] by simp

lemma pow2_mono: "a \<le> b \<Longrightarrow> pow2 a \<le> pow2 b"
  by (simp add: pow2_powi power_int_increasing)

lemma pow2_strict_mono: "a < b \<Longrightarrow> pow2 a < pow2 b"
  by (simp add: pow2_powi power_int_strict_increasing)

lemma pow2_52_53: "pow2 53 = 2 * pow2 52"
  using pow2_Suc [of 52] by simp

lemma norm_exp_up:
  "pow2 52 \<le> y \<Longrightarrow> y < pow2 (53 + int k) \<Longrightarrow>
   pow2 52 \<le> y * pow2 e / pow2 (norm_exp k y e) \<and> y * pow2 e / pow2 (norm_exp k y e) < pow2 53
   \<and> e \<le> norm_exp k y e"
proof (induction k arbitrary: y e)
  case 0
  then show ?case by simp
next
  case (Suc k)
  show ?case
  proof (cases "y \<ge> pow2 53")
    case True
    have a: "pow2 52 \<le> y / 2" using True by (simp add: pow2_52_53)
    have "pow2 (53 + int (Suc k)) = 2 * pow2 (53 + int k)"
      using pow2_Suc [of "53 + int k"] by (simp add: add.assoc)
    then have b: "y / 2 < pow2 (53 + int k)" using Suc.prems(2) by simp
    have ih: "pow2 52 \<le> y / 2 * pow2 (e + 1) / pow2 (norm_exp k (y / 2) (e + 1))
        \<and> y / 2 * pow2 (e + 1) / pow2 (norm_exp k (y / 2) (e + 1)) < pow2 53
        \<and> e + 1 \<le> norm_exp k (y / 2) (e + 1)"
      using a b by (rule Suc.IH)
    have eq: "y / 2 * pow2 (e + 1) = y * pow2 e" by (simp add: pow2_Suc)
    have step: "norm_exp (Suc k) y e = norm_exp k (y / 2) (e + 1)" using True by simp
    show ?thesis unfolding step using ih unfolding eq by linarith
  next
    case False
    then show ?thesis using Suc.prems(1) by simp
  qed
qed

lemma norm_exp_down:
  "0 < y \<Longrightarrow> y < pow2 53 \<Longrightarrow> - 1074 \<le> e \<Longrightarrow> e + 1074 \<le> int k \<Longrightarrow>
   y * pow2 e / pow2 (norm_exp k y e) < pow2 53
   \<and> (pow2 52 \<le> y * pow2 e / pow2 (norm_exp k y e) \<or> norm_exp k y e = - 1074)
   \<and> - 1074 \<le> norm_exp k y e"
proof (induction k arbitrary: y e)
  case 0
  then show ?case by simp
next
  case (Suc k)
  show ?case
  proof (cases "y < pow2 52 \<and> e > - 1074")
    case True
    have a: "0 < y * 2" using Suc.prems(1) by simp
    have b: "y * 2 < pow2 53" using True by (simp add: pow2_52_53)
    have c: "- 1074 \<le> e - 1" using True by simp
    have d: "e - 1 + 1074 \<le> int k" using Suc.prems(4) by simp
    have ih: "y * 2 * pow2 (e - 1) / pow2 (norm_exp k (y * 2) (e - 1)) < pow2 53
        \<and> (pow2 52 \<le> y * 2 * pow2 (e - 1) / pow2 (norm_exp k (y * 2) (e - 1))
            \<or> norm_exp k (y * 2) (e - 1) = - 1074)
        \<and> - 1074 \<le> norm_exp k (y * 2) (e - 1)"
      using a b c d by (rule Suc.IH)
    have eq: "y * 2 * pow2 (e - 1) = y * pow2 e" by (simp add: pow2_pred)
    have step: "norm_exp (Suc k) y e = norm_exp k (y * 2) (e - 1)"
      using True pow2_strict_mono [of 52 53] by simp
    show ?thesis unfolding step using ih unfolding eq by blast
  next
    case False
    then show ?thesis using Suc.prems by auto
  qed
qed

lemma fexp_spec:
  assumes "x \<noteq> 0" and "\<bar>x\<bar> < pow2 1024"
  shows "\<bar>x\<bar> / pow2 (fexp x) < pow2 53
       \<and> (pow2 52 \<le> \<bar>x\<bar> / pow2 (fexp x) \<or> fexp x = - 1074)
       \<and> - 1074 \<le> fexp x"
proof (cases "\<bar>x\<bar> < pow2 52")
  case True
  have "\<bar>x\<bar> < pow2 53" using True pow2_strict_mono [of 52 53] by simp
  then show ?thesis
    unfolding fexp_def
    using norm_exp_down [of "\<bar>x\<bar>" 0 2200] assms(1) by simp
next
  case False
  have "pow2 1024 \<le> pow2 (53 + int 2200)" by (rule pow2_mono) simp
  then have "\<bar>x\<bar> < pow2 (53 + int 2200)" using assms(2) by linarith
  then show ?thesis
    unfolding fexp_def
    using norm_exp_up [of "\<bar>x\<bar>" 2200 0] False by auto
qed


lemma fexp_unique:
  assumes "0 < x" and "- 1074 \<le> e" and "e \<le> 971"
    and "x / pow2 e < pow2 53" and "pow2 52 \<le> x / pow2 e \<or> e = - 1074"
  shows "fexp x = e"
proof -
  have "x < pow2 53 * pow2 e" using assms(4) by (simp add: pos_divide_less_eq)
  also have "\<dots> = pow2 (53 + e)" by (simp add: pow2_add)
  also have "\<dots> \<le> pow2 1024" using assms(3) by (intro pow2_mono) simp
  finally have "\<bar>x\<bar> < pow2 1024" using assms(1) by simp
  then have sp: "x / pow2 (fexp x) < pow2 53"
      "pow2 52 \<le> x / pow2 (fexp x) \<or> fexp x = - 1074" "- 1074 \<le> fexp x"
    using fexp_spec [of x] assms(1) by simp_all
  show ?thesis
  proof (rule ccontr)
    assume ne: "fexp x \<noteq> e"
    show False
    proof (cases "fexp x < e")
      case True
      then have "e \<noteq> - 1074" using sp(3) by linarith
      then have lo: "pow2 52 \<le> x / pow2 e" using assms(5) by blast
      have "pow2 (fexp x + 1) \<le> pow2 e" using True by (intro pow2_mono) simp
      then have "2 * pow2 (fexp x) \<le> pow2 e" by (simp add: pow2_Suc)
      then have "x / pow2 e \<le> x / (2 * pow2 (fexp x))"
        using assms(1) by (intro divide_left_mono) simp_all
      then have "pow2 52 \<le> x / pow2 (fexp x) / 2" using lo by simp
      then have "pow2 53 \<le> x / pow2 (fexp x)" by (simp add: pow2_52_53)
      then show False using sp(1) by linarith
    next
      case False
      then have gt: "e < fexp x" using ne by linarith
      then have "fexp x \<noteq> - 1074" using assms(2) by linarith
      then have lo: "pow2 52 \<le> x / pow2 (fexp x)" using sp(2) by blast
      have "pow2 (e + 1) \<le> pow2 (fexp x)" using gt by (intro pow2_mono) simp
      then have "2 * pow2 e \<le> pow2 (fexp x)" by (simp add: pow2_Suc)
      then have "x / pow2 (fexp x) \<le> x / (2 * pow2 e)"
        using assms(1) by (intro divide_left_mono) simp_all
      then have "pow2 52 \<le> x / pow2 e / 2" using lo by simp
      then have "pow2 53 \<le> x / pow2 e" by (simp add: pow2_52_53)
      then show False using assms(4) by linarith
    qed
  qed
qed

lemma fl_eval:
  assumes "0 < x" and "- 1074 \<le> e" and "e \<le> 971"
    and "x / pow2 e < pow2 53" and "pow2 52 \<le> x / pow2 e \<or> e = - 1074"
    and "rne (x / pow2 e) = m"
  shows "fl x = of_int m * pow2 e"
  using assms(1,6) fexp_unique [OF assms(1-5)] by (simp add: fl_def)

lemma fl_0 [simp]: "fl 0 = 0"
  by (simp add: fl_def)

lemma fexp_minus [simp]: "fexp (- x) = fexp x"
  by (simp add: fexp_def)

lemma fl_minus: "fl (- x) = - fl x"
  by (simp add: fl_def sgn_minus)

lemma rne_error: "\<bar>of_int (rne q) - q\<bar> \<le> 1 / 2"
  unfolding rne_def Let_def by (auto simp: abs_if) linarith+

lemma rne_nonneg: "0 \<le> q \<Longrightarrow> 0 \<le> rne q"
  unfolding rne_def Let_def by (auto simp: abs_if)

lemma fl_nonneg: "0 \<le> x \<Longrightarrow> 0 \<le> fl x"
proof (cases "x = 0")
  case True
  then show ?thesis by simp
next
  case False
  assume "0 \<le> x"
  then have p: "0 < x" using False by simp
  then have "0 \<le> rne (\<bar>x\<bar> / pow2 (fexp x))" by (intro rne_nonneg) simp
  then have "0 \<le> real_of_int (rne (\<bar>x\<bar> / pow2 (fexp x))) * pow2 (fexp x)" by simp
  then show ?thesis using p by (simp add: fl_def)
qed

lemma fl_nonpos: "x \<le> 0 \<Longrightarrow> fl x \<le> 0"
  using fl_nonneg [of "- x"] by (simp add: fl_minus)

lemma fl_rel_error:
  assumes "pow2 (- 1022) \<le> \<bar>x\<bar>" and "\<bar>x\<bar> < pow2 1024"
  shows "\<bar>fl x - x\<bar> \<le> \<bar>x\<bar> / pow2 53"
proof -
  have nz: "x \<noteq> 0"
  proof
    assume "x = 0"
    then have "pow2 (- 1022) \<le> 0" using assms(1) by simp
    then show False using pow2_pos [of "- 1022"] by linarith
  qed
  define e where "e = fexp x"
  define z where "z = \<bar>x\<bar> / pow2 e"
  have sp: "z < pow2 53" "pow2 52 \<le> z \<or> e = - 1074"
    using fexp_spec [OF nz assms(2)] by (simp_all add: z_def e_def)
  have lo: "pow2 52 \<le> z"
  proof (rule ccontr)
    assume n: "\<not> pow2 52 \<le> z"
    then have e: "e = - 1074" using sp(2) by blast
    have "\<bar>x\<bar> = z * pow2 e" by (simp add: z_def)
    also have "\<dots> < pow2 52 * pow2 e" using n by simp
    also have "\<dots> = pow2 (- 1022)" unfolding e by (simp add: pow2_add [symmetric])
    finally show False using assms(1) by linarith
  qed
  have x: "\<bar>x\<bar> = z * pow2 e" by (simp add: z_def)
  have "fl x = sgn x * (of_int (rne z) * pow2 e)"
    using nz by (simp add: fl_def z_def e_def)
  moreover have "x = sgn x * (z * pow2 e)"
    using x by (simp add: sgn_if abs_if split: if_splits)
  ultimately have "fl x - x = sgn x * ((of_int (rne z) - z) * pow2 e)"
    by (simp add: algebra_simps)
  then have "\<bar>fl x - x\<bar> = \<bar>of_int (rne z) - z\<bar> * pow2 e"
    using nz by (simp add: abs_mult abs_sgn_eq)
  also have "\<dots> \<le> 1 / 2 * pow2 e"
    using rne_error [of z] by (intro mult_right_mono) simp_all
  also have "\<dots> \<le> z / pow2 53 * pow2 e"
  proof -
    have "1 / 2 = pow2 52 / pow2 53" by (simp add: pow2_52_53)
    also have "\<dots> \<le> z / pow2 53" using lo by (intro divide_right_mono) simp_all
    finally show ?thesis by (intro mult_right_mono) simp_all
  qed
  also have "\<dots> = \<bar>x\<bar> / pow2 53" unfolding x by simp
  finally show ?thesis .
qed

lemma rne_le_double: "0 \<le> z \<Longrightarrow> of_int (rne z) \<le> 2 * z"
proof (cases "z < 1 / 2")
  case True
  assume "0 \<le> z"
  then have "\<lfloor>z\<rfloor> = 0" using True by (intro floor_unique) simp_all
  then have "rne z = 0" using True by (simp add: rne_def Let_def)
  then show ?thesis using \<open>0 \<le> z\<close> by simp
next
  case False
  then show ?thesis using rne_error [of z] by linarith
qed

lemma fl_le_double: "0 \<le> x \<Longrightarrow> fl x \<le> 2 * x"
proof (cases "x = 0")
  case True
  then show ?thesis by simp
next
  case False
  assume "0 \<le> x"
  then have p: "0 < x" using False by simp
  have "of_int (rne (x / pow2 (fexp x))) \<le> 2 * (x / pow2 (fexp x))"
    using p by (intro rne_le_double) simp
  then have "of_int (rne (x / pow2 (fexp x))) * pow2 (fexp x) \<le> 2 * (x / pow2 (fexp x)) * pow2 (fexp x)"
    by (intro mult_right_mono) simp_all
  then show ?thesis using p by (simp add: fl_def)
qed

lemma fl_le: "x \<le> b \<Longrightarrow> 0 \<le> b \<Longrightarrow> fl x \<le> 2 * b"
proof (cases "0 \<le> x")
  case True
  assume "x \<le> b"
  then show ?thesis using fl_le_double [OF True] by linarith
next
  case False
  assume "0 \<le> b"
  then show ?thesis using False fl_nonpos [of x] by linarith
qed

lemma fl_bounds:
  assumes "1 / 2 ^ 100 \<le> x" and "x \<le> 2 ^ 100"
  shows "x * (1 - 1 / 2 ^ 53) \<le> fl x" and "fl x \<le> x * (1 + 1 / 2 ^ 53)"
proof -
  have pos: "0 < x" using assms(1) by (rule less_le_trans [rotated]) simp
  have "pow2 (- 1022) \<le> pow2 (- 100)" by (rule pow2_mono) simp
  also have "pow2 (- 100) = 1 / 2 ^ 100" by (simp add: pow2_def)
  finally have lo: "pow2 (- 1022) \<le> \<bar>x\<bar>" using assms(1) pos by simp
  have "(2::real) ^ 100 = pow2 100" by (simp add: pow2_def)
  also have "\<dots> < pow2 1024" by (rule pow2_strict_mono) simp
  finally have hi: "\<bar>x\<bar> < pow2 1024" using assms(2) pos by simp
  have p53: "pow2 53 = 2 ^ 53" by (simp add: pow2_def)
  have "\<bar>fl x - x\<bar> \<le> x / 2 ^ 53"
    using fl_rel_error [OF lo hi] pos by (simp add: p53)
  then have "fl x - x \<le> x / 2 ^ 53" and "x - fl x \<le> x / 2 ^ 53"
    by linarith+
  then show "x * (1 - 1 / 2 ^ 53) \<le> fl x" and "fl x \<le> x * (1 + 1 / 2 ^ 53)"
    by (simp_all add: algebra_simps)
qed

lemma rne_of_int: "rne (of_int j) = j"
  by (simp add: rne_def Let_def)

lemma fl_of_int:
  assumes "\<bar>k\<bar> < 2 ^ 53"
  shows "fl (of_int k) = of_int k"
proof (cases "k = 0")
  case True
  then show ?thesis by simp
next
  case False
  define x :: real where "x = of_int k"
  define e where "e = fexp x"
  have nz: "x \<noteq> 0" using False by (simp add: x_def)
  have "\<bar>x\<bar> < 2 ^ 53" using assms unfolding x_def
    by (metis of_int_abs of_int_less_iff of_int_numeral of_int_power)
  then have lt53: "\<bar>x\<bar> < pow2 53" by (simp add: pow2_def)
  also have "pow2 53 < pow2 1024" by (rule pow2_strict_mono) simp
  finally have "\<bar>x\<bar> < pow2 1024" .
  from fexp_spec [OF nz this]
  have s: "pow2 52 \<le> \<bar>x\<bar> / pow2 e \<or> e = - 1074" by (simp add: e_def)
  have e0: "e \<le> 0"
  proof (rule ccontr)
    assume "\<not> e \<le> 0"
    then have e1: "1 \<le> e" by simp
    then have "pow2 1 \<le> pow2 e" by (rule pow2_mono)
    then have "2 \<le> pow2 e" by (simp add: pow2_def)
    then have "\<bar>x\<bar> / pow2 e \<le> \<bar>x\<bar> / 2"
      by (intro divide_left_mono) simp_all
    also have "\<dots> < pow2 53 / 2" using lt53 by simp
    also have "\<dots> = pow2 52" by (simp add: pow2_def)
    finally show False using s e1 by simp
  qed
  then have pe: "pow2 e = 1 / 2 ^ nat (- e)" by (simp add: pow2_def)
  have "\<bar>x\<bar> / pow2 e = of_int (\<bar>k\<bar> * 2 ^ nat (- e))"
    by (simp add: pe x_def)
  then have "of_int (rne (\<bar>x\<bar> / pow2 e)) * pow2 e = \<bar>x\<bar>"
    by (simp only: rne_of_int) (simp add: pe x_def)
  then have "fl x = sgn x * \<bar>x\<bar>" using nz by (simp add: fl_def e_def)
  then show ?thesis by (simp add: x_def sgn_mult_abs)
qed

lemma fl_33_1000: "fl (33 / 1000) = 1188950301625811 / 36028797018963968"
  by (rule fl_eval [where e = "- 57", THEN trans]) (simp_all add: pow2_def rne_def Let_def)

lemma MINIMUM_MONTHS_LIVE_value:
  "MINIMUM_MONTHS_LIVE = 1188950301625811 / 36028797018963968"
  by (simp add: MINIMUM_MONTHS_LIVE_def fl_33_1000)

lemma fl_15_100: "fl (3 / 20) = 5404319552844595 / 36028797018963968"
  by (rule fl_eval [where e = "- 55", THEN trans]) (simp_all add: pow2_def rne_def Let_def)

section \<open>Percentage-based stale analysis: the formula\<close>

lemma is_stale_eq:
  "is_stale (calculatePercentageBasedStaleAnalysis u n p c t) =
     ((if n > 0
       then fl (fl (fl (u / max (fl (Math_ceil (fl (fl (of_int c - of_int p)
                                   / MILLISECONDS_PER_DAY)) / DAYS_PER_MONTH))
                              MINIMUM_MONTHS_LIVE) / n) * 100)
       else 0) < t)"
  by (simp add: calculatePercentageBasedStaleAnalysis_def Let_def)

lemma is_stale_zero_units:
  "is_stale (calculatePercentageBasedStaleAnalysis 0 n p c t) = (0 < t)"
  by (simp add: calculatePercentageBasedStaleAnalysis_def Let_def)

text \<open>
  For dates less than \<open>2^53\<close> milliseconds apart the days live are computed exactly: the
  difference of the dates is a double, and the rounding of its quotient by the
  milliseconds of a day does not reach the next whole number.
\<close>

lemma days_exact:
  assumes "0 \<le> k" and "k < 2 ^ 53"
  shows "\<lceil>fl (of_int k / 86400000)\<rceil> = \<lceil>real_of_int k / 86400000\<rceil>"
proof (cases "k mod 86400000 = 0")
  case True
  then have "k = (k div 86400000) * 86400000"
    using div_mult_mod_eq [of k 86400000] by simp
  then have eq: "real_of_int k / 86400000 = of_int (k div 86400000)"
    by (metis nonzero_mult_div_cancel_right of_int_mult of_int_numeral zero_neq_numeral)
  have "\<bar>k div 86400000\<bar> < 2 ^ 53" using assms by simp
  then show ?thesis unfolding eq by (simp only: fl_of_int)
next
  case False
  define q where "q = k div 86400000"
  define r where "r = k mod 86400000"
  have "0 \<le> r" "r < 86400000" unfolding r_def by simp_all
  then have r: "1 \<le> r" "r \<le> 86399999" using False by (simp_all add: r_def)
  have k: "k = q * 86400000 + r" by (simp add: q_def r_def)
  define y :: real where "y = of_int k / 86400000"
  have y: "y = of_int q + of_int r / 86400000" by (simp add: y_def k)
  have ylo: "of_int q + 1 / 86400000 \<le> y" using r(1) by (simp add: y)
  have yhi: "y \<le> of_int q + 1 - 1 / 86400000" using r(2) by (simp add: y)
  have q0: "0 \<le> q" using assms(1) by (simp add: q_def pos_imp_zdiv_nonneg_iff)
  have ypos: "1 / 86400000 \<le> y" using ylo q0 by simp
  have "real_of_int k < 2 ^ 53" using assms(2)
    by (metis of_int_less_iff of_int_numeral of_int_power)
  then have ylt: "y < 2 ^ 53 / 86400000" by (simp add: y_def)
  have "pow2 (- 1022) \<le> pow2 (- 100)" by (rule pow2_mono) simp
  also have "pow2 (- 100) \<le> 1 / 86400000" by (simp add: pow2_def)
  finally have lo: "pow2 (- 1022) \<le> \<bar>y\<bar>" using ypos by simp
  have "(2::real) ^ 53 / 86400000 \<le> pow2 100" by (simp add: pow2_def)
  also have "\<dots> < pow2 1024" by (rule pow2_strict_mono) simp
  finally have hi: "\<bar>y\<bar> < pow2 1024" using ylt ypos by simp
  have "\<bar>fl y - y\<bar> \<le> y / 2 ^ 53"
    using fl_rel_error [OF lo hi] ypos by (simp add: pow2_def)
  moreover have "y / 2 ^ 53 < 1 / 86400000" using ylt by simp
  ultimately have "of_int q < fl y" "fl y \<le> of_int q + 1" using ylo yhi by linarith+
  then have "\<lceil>fl y\<rceil> = q + 1" by (intro ceiling_unique) simp_all
  moreover have "\<lceil>y\<rceil> = q + 1" using ylo yhi by (intro ceiling_unique) simp_all
  ultimately show ?thesis by (simp add: y_def)
qed

text \<open>
  The months live lie between 1/32 and \<open>2^30\<close> for dates at most \<open>2^54\<close> milliseconds
  apart, and within one rounding of the exact months; the computed percentage is within
  three roundings of the exact quotient by the computed months, hence within \<open>2^-50\<close>,
  relatively, of the exact percentage.
\<close>

lemma months_bounds:
  assumes "of_int c - of_int p \<le> (2::real) ^ 54"
  shows "1 / 32 \<le> max (fl (Math_ceil (fl (fl (of_int c - of_int p) / MILLISECONDS_PER_DAY)) / DAYS_PER_MONTH)) MINIMUM_MONTHS_LIVE"
    and "max (fl (Math_ceil (fl (fl (of_int c - of_int p) / MILLISECONDS_PER_DAY)) / DAYS_PER_MONTH)) MINIMUM_MONTHS_LIVE \<le> 2 ^ 30"
proof -
  have a: "fl (of_int c - of_int p) \<le> 2 * 2 ^ 54"
    using assms by (rule fl_le) simp
  have "fl (of_int c - of_int p) / MILLISECONDS_PER_DAY \<le> 2 * 2 ^ 54 / MILLISECONDS_PER_DAY"
    using a by (intro divide_right_mono) (simp_all add: MILLISECONDS_PER_DAY_def)
  also have "\<dots> \<le> 2 ^ 29" by (simp add: MILLISECONDS_PER_DAY_def)
  finally have b: "fl (fl (of_int c - of_int p) / MILLISECONDS_PER_DAY) \<le> 2 * 2 ^ 29"
    by (rule fl_le) simp
  have "Math_ceil (fl (fl (of_int c - of_int p) / MILLISECONDS_PER_DAY))
          \<le> fl (fl (of_int c - of_int p) / MILLISECONDS_PER_DAY) + 1"
    unfolding Math_ceil_def by (rule of_int_ceiling_le_add_one)
  also have "\<dots> \<le> 2 * 2 ^ 29 + 1" using b by simp
  finally have "Math_ceil (fl (fl (of_int c - of_int p) / MILLISECONDS_PER_DAY)) / DAYS_PER_MONTH
          \<le> (2 * 2 ^ 29 + 1) / DAYS_PER_MONTH"
    by (intro divide_right_mono) (simp_all add: DAYS_PER_MONTH_def)
  also have "\<dots> \<le> 2 ^ 29" by (simp add: DAYS_PER_MONTH_def)
  finally have "fl (Math_ceil (fl (fl (of_int c - of_int p) / MILLISECONDS_PER_DAY)) / DAYS_PER_MONTH)
          \<le> 2 * 2 ^ 29"
    by (rule fl_le) simp
  then show "max (fl (Math_ceil (fl (fl (of_int c - of_int p) / MILLISECONDS_PER_DAY)) / DAYS_PER_MONTH)) MINIMUM_MONTHS_LIVE \<le> 2 ^ 30"
    by (simp add: MINIMUM_MONTHS_LIVE_value)
  have "(1::real) / 32 \<le> MINIMUM_MONTHS_LIVE" by (simp add: MINIMUM_MONTHS_LIVE_value)
  then show "1 / 32 \<le> max (fl (Math_ceil (fl (fl (of_int c - of_int p) / MILLISECONDS_PER_DAY)) / DAYS_PER_MONTH)) MINIMUM_MONTHS_LIVE"
    by (simp add: le_max_iff_disj)
qed

lemma months_close:
  assumes "p \<le> c" and "c - p < 2 ^ 53"
  shows "max (real_of_int \<lceil>real_of_int (c - p) / (1000 * 60 * 60 * 24)\<rceil> / 30) (33 / 1000)
            * (1 - 1 / 2 ^ 53)
         \<le> max (fl (Math_ceil (fl (fl (of_int c - of_int p) / MILLISECONDS_PER_DAY))
                  / DAYS_PER_MONTH)) MINIMUM_MONTHS_LIVE"
    and "max (fl (Math_ceil (fl (fl (of_int c - of_int p) / MILLISECONDS_PER_DAY))
                  / DAYS_PER_MONTH)) MINIMUM_MONTHS_LIVE
         \<le> max (real_of_int \<lceil>real_of_int (c - p) / (1000 * 60 * 60 * 24)\<rceil> / 30) (33 / 1000)
            * (1 + 1 / 2 ^ 53)"
proof -
  define k where "k = c - p"
  define dd where "dd = \<lceil>real_of_int k / 86400000\<rceil>"
  have k: "0 \<le> k" "k < 2 ^ 53" using assms by (simp_all add: k_def)
  then have "\<bar>k\<bar> < 2 ^ 53" by simp
  then have "fl (of_int k) = of_int k" by (rule fl_of_int)
  then have e1: "fl (of_int c - of_int p) = of_int k" by (simp add: k_def)
  have e2: "Math_ceil (fl (of_int k / MILLISECONDS_PER_DAY)) = of_int dd"
    unfolding Math_ceil_def MILLISECONDS_PER_DAY_def dd_def using days_exact [OF k] by simp
  have dd0: "0 \<le> dd" unfolding dd_def using k(1) by simp
  have "real_of_int k < 2 ^ 53" using k(2)
    by (metis of_int_less_iff of_int_numeral of_int_power)
  then have "real_of_int k / 86400000 \<le> 2 ^ 53" by simp
  then have "dd \<le> \<lceil>(2::real) ^ 53\<rceil>" unfolding dd_def by (rule ceiling_mono)
  then have ddhi: "real_of_int dd \<le> 2 ^ 53"
    by (metis ceiling_numeral_power of_int_le_iff of_int_numeral of_int_power)
  have A: "real_of_int dd / 30 * (1 - 1 / 2 ^ 53) \<le> fl (real_of_int dd / 30)
           \<and> fl (real_of_int dd / 30) \<le> real_of_int dd / 30 * (1 + 1 / 2 ^ 53)"
  proof (cases "dd = 0")
    case True
    then show ?thesis by simp
  next
    case False
    then have "1 \<le> dd" using dd0 by simp
    then have "(1::real) \<le> of_int dd" by simp
    then have r: "1 / 2 ^ 100 \<le> real_of_int dd / 30" "real_of_int dd / 30 \<le> 2 ^ 100"
      using ddhi by simp_all
    show ?thesis using fl_bounds [OF r] by simp
  qed
  have r: "1 / 2 ^ 100 \<le> (33 / 1000 :: real)" "(33 / 1000 :: real) \<le> 2 ^ 100" by simp_all
  have B: "33 / 1000 * (1 - 1 / 2 ^ 53) \<le> MINIMUM_MONTHS_LIVE"
          "MINIMUM_MONTHS_LIVE \<le> 33 / 1000 * (1 + 1 / 2 ^ 53)"
    by (simp_all add: MINIMUM_MONTHS_LIVE_value)
  have C: "0 \<le> real_of_int dd / 30" using dd0 by simp
  show "max (real_of_int \<lceil>real_of_int (c - p) / (1000 * 60 * 60 * 24)\<rceil> / 30) (33 / 1000)
            * (1 - 1 / 2 ^ 53)
         \<le> max (fl (Math_ceil (fl (fl (of_int c - of_int p) / MILLISECONDS_PER_DAY))
                  / DAYS_PER_MONTH)) MINIMUM_MONTHS_LIVE"
    unfolding e1 e2 DAYS_PER_MONTH_def k_def [symmetric]
    using A B C by (simp add: dd_def [symmetric] max_def)
  show "max (fl (Math_ceil (fl (fl (of_int c - of_int p) / MILLISECONDS_PER_DAY))
                  / DAYS_PER_MONTH)) MINIMUM_MONTHS_LIVE
         \<le> max (real_of_int \<lceil>real_of_int (c - p) / (1000 * 60 * 60 * 24)\<rceil> / 30) (33 / 1000)
            * (1 + 1 / 2 ^ 53)"
    unfolding e1 e2 DAYS_PER_MONTH_def k_def [symmetric]
    using A B C by (simp add: dd_def [symmetric] max_def)
qed

lemma pct_nonneg:
  fixes u m n :: real
  assumes "0 \<le> u" and "0 < m"
  shows "0 \<le> (if n > 0 then fl (fl (fl (u / m) / n) * 100) else 0)"
proof (cases "n > 0")
  case True
  have "0 \<le> fl (u / m)" using assms by (intro fl_nonneg) simp
  then have "0 \<le> fl (fl (u / m) / n)" using True by (intro fl_nonneg) simp
  then have "0 \<le> fl (fl (fl (u / m) / n) * 100)" by (intro fl_nonneg) simp
  then show ?thesis using True by simp
next
  case False
  then show ?thesis by simp
qed

lemma pct_bounds_gen:
  fixes u m n :: real
  assumes m: "1 / 32 \<le> m" "m \<le> 2 ^ 30" and u: "1 \<le> u" "u \<le> 2 ^ 53" and n: "1 \<le> n" "n \<le> 2 ^ 53"
  shows "u / m / n * 100 * (1 - 1 / 2 ^ 53) ^ 3 \<le> fl (fl (fl (u / m) / n) * 100)"
    and "fl (fl (fl (u / m) / n) * 100) \<le> u / m / n * 100 * (1 + 1 / 2 ^ 53) ^ 3"
proof -
  define d :: real where "d = 1 - 1 / 2 ^ 53"
  define g :: real where "g = 1 + 1 / 2 ^ 53"
  have d: "1 / 2 \<le> d" "0 \<le> d" and g: "g \<le> 2" "0 \<le> g"
    by (simp_all add: d_def g_def)
  have mpos: "0 < m" using m(1) by (rule less_le_trans [rotated]) simp
  have n1: "1 \<le> n" and npos: "0 < n" using n by simp_all
  define x1 where "x1 = u / m"
  define a where "a = fl x1"
  define x2 where "x2 = a / n"
  define b where "b = fl x2"
  define x3 where "x3 = b * 100"
  have "1 / 2 ^ 30 \<le> u / m" using u(1) mpos m(2) by (intro frac_le) simp_all
  then have x1lo: "1 / 2 ^ 30 \<le> x1" by (simp add: x1_def)
  have "u / m \<le> 2 ^ 53 / (1 / 32)" using u m(1) by (intro frac_le) simp_all
  then have x1hi: "x1 \<le> 2 ^ 58" by (simp add: x1_def)
  have x1pos: "0 \<le> x1" using x1lo by (rule order_trans [rotated]) simp
  have r1: "1 / 2 ^ 100 \<le> x1" "x1 \<le> 2 ^ 100"
    using x1lo x1hi by simp_all
  have a1: "x1 * d \<le> a" and a2: "a \<le> x1 * g"
    using fl_bounds [OF r1] by (simp_all add: a_def d_def g_def)
  have "(1 / 2 ^ 30) * (1 / 2) \<le> x1 * d" using x1lo d by (intro mult_mono) simp_all
  then have alo: "1 / 2 ^ 31 \<le> a" using a1 by simp
  have "x1 * g \<le> 2 ^ 58 * 2" using x1hi g x1pos by (intro mult_mono) simp_all
  then have ahi: "a \<le> 2 ^ 59" using a2 by simp
  have apos: "0 \<le> a" using alo by (rule order_trans [rotated]) simp
  have "(1 / 2 ^ 31) / 2 ^ 53 \<le> a / n" using alo npos n(2) by (intro frac_le) simp_all
  then have x2lo: "1 / 2 ^ 84 \<le> x2" by (simp add: x2_def)
  have "a / n \<le> 2 ^ 59 / 1" using ahi apos n1 by (intro frac_le) simp_all
  then have x2hi: "x2 \<le> 2 ^ 59" by (simp add: x2_def)
  have x2pos: "0 \<le> x2" using x2lo by (rule order_trans [rotated]) simp
  have r2: "1 / 2 ^ 100 \<le> x2" "x2 \<le> 2 ^ 100"
    using x2lo x2hi by simp_all
  have b1: "x2 * d \<le> b" and b2: "b \<le> x2 * g"
    using fl_bounds [OF r2] by (simp_all add: b_def d_def g_def)
  have "(1 / 2 ^ 84) * (1 / 2) \<le> x2 * d" using x2lo d by (intro mult_mono) simp_all
  then have blo: "1 / 2 ^ 85 \<le> b" using b1 by simp
  have "x2 * g \<le> 2 ^ 59 * 2" using x2hi g x2pos by (intro mult_mono) simp_all
  then have bhi: "b \<le> 2 ^ 60" using b2 by simp
  have r3: "1 / 2 ^ 100 \<le> x3" "x3 \<le> 2 ^ 100"
    using blo bhi by (simp_all add: x3_def)
  have p1: "x3 * d \<le> fl x3" and p2: "fl x3 \<le> x3 * g"
    using fl_bounds [OF r3] by (simp_all add: d_def g_def)
  have "x1 * d / n \<le> x2" unfolding x2_def using a1 npos by (intro divide_right_mono) simp_all
  then have "x1 * d / n * d \<le> x2 * d" using d by (intro mult_right_mono) simp_all
  then have "x1 * d / n * d \<le> b" using b1 by simp
  then have "x1 * d / n * d * 100 \<le> x3" unfolding x3_def by (intro mult_right_mono) simp_all
  then have "x1 * d / n * d * 100 * d \<le> x3 * d" using d by (intro mult_right_mono) simp_all
  then have lo: "x1 * d / n * d * 100 * d \<le> fl x3" using p1 by simp
  have "x2 \<le> x1 * g / n" unfolding x2_def using a2 npos by (intro divide_right_mono) simp_all
  then have "x2 * g \<le> x1 * g / n * g" using g by (intro mult_right_mono) simp_all
  then have "b \<le> x1 * g / n * g" using b2 by simp
  then have "x3 \<le> x1 * g / n * g * 100" unfolding x3_def by (intro mult_right_mono) simp_all
  then have "x3 * g \<le> x1 * g / n * g * 100 * g" using g by (intro mult_right_mono) simp_all
  then have hi: "fl x3 \<le> x1 * g / n * g * 100 * g" using p2 by simp
  have e1: "u / m / n * 100 * d ^ 3 = x1 * d / n * d * 100 * d"
    by (simp add: x1_def power3_eq_cube)
  have e2: "u / m / n * 100 * g ^ 3 = x1 * g / n * g * 100 * g"
    by (simp add: x1_def power3_eq_cube)
  show "u / m / n * 100 * (1 - 1 / 2 ^ 53) ^ 3 \<le> fl (fl (fl (u / m) / n) * 100)"
    using lo e1 unfolding x3_def b_def x2_def a_def x1_def d_def by simp
  show "fl (fl (fl (u / m) / n) * 100) \<le> u / m / n * 100 * (1 + 1 / 2 ^ 53) ^ 3"
    using hi e2 unfolding x3_def b_def x2_def a_def x1_def g_def by simp
qed

lemma slack_up: "(1 + 1 / 2 ^ 53 :: real) ^ 3 \<le> (1 + 1 / 2 ^ 50) * (1 - 1 / 2 ^ 53)"
  by (simp add: power3_eq_cube)

lemma slack_down: "(1 - 1 / 2 ^ 50) * (1 + 1 / 2 ^ 53) \<le> (1 - 1 / 2 ^ 53 :: real) ^ 3"
  by (simp add: power3_eq_cube)

lemma pct_close:
  fixes u n :: real
  assumes dates: "p \<le> c" "c - p < 2 ^ 53"
    and u: "1 \<le> u" "u \<le> 2 ^ 53" and n: "1 \<le> n" "n \<le> 2 ^ 53"
  shows "\<bar>fl (fl (fl (u / max (fl (Math_ceil (fl (fl (of_int c - of_int p)
                / MILLISECONDS_PER_DAY)) / DAYS_PER_MONTH)) MINIMUM_MONTHS_LIVE) / n) * 100)
          - u / max (real_of_int \<lceil>real_of_int (c - p) / (1000 * 60 * 60 * 24)\<rceil> / 30) (33 / 1000)
              / n * 100\<bar>
         \<le> u / max (real_of_int \<lceil>real_of_int (c - p) / (1000 * 60 * 60 * 24)\<rceil> / 30) (33 / 1000)
              / n * 100 / 2 ^ 50"
proof -
  define m where "m = max (fl (Math_ceil (fl (fl (of_int c - of_int p)
                / MILLISECONDS_PER_DAY)) / DAYS_PER_MONTH)) MINIMUM_MONTHS_LIVE"
  define M :: real where
    "M = max (real_of_int \<lceil>real_of_int (c - p) / (1000 * 60 * 60 * 24)\<rceil> / 30) (33 / 1000)"
  define K where "K = u / n * 100"
  define d :: real where "d = 1 - 1 / 2 ^ 53"
  define g :: real where "g = 1 + 1 / 2 ^ 53"
  define P where "P = fl (fl (fl (u / m) / n) * 100)"
  have d: "0 < d" and g: "0 < g" by (simp_all add: d_def g_def)
  have su: "g ^ 3 \<le> (1 + 1 / 2 ^ 50) * d" unfolding d_def g_def by (rule slack_up)
  have sd: "(1 - 1 / 2 ^ 50) * g \<le> d ^ 3" unfolding d_def g_def by (rule slack_down)
  have "real_of_int c - real_of_int p \<le> 2 ^ 54"
  proof -
    have "real_of_int (c - p) < 2 ^ 53" using dates(2)
      by (metis of_int_less_iff of_int_numeral of_int_power)
    then show ?thesis by simp
  qed
  then have mb: "1 / 32 \<le> m" "m \<le> 2 ^ 30"
    unfolding m_def using months_bounds by simp_all
  have mpos: "0 < m" using mb(1) by (rule less_le_trans [rotated]) simp
  have Mpos: "0 < M" by (simp add: M_def less_max_iff_disj)
  have mM: "M * d \<le> m" "m \<le> M * g"
    unfolding m_def M_def d_def g_def using months_close [OF dates] by simp_all
  have K0: "0 \<le> K" using u n by (simp add: K_def)
  have Em: "u / m / n * 100 = K / m" by (simp add: K_def)
  have pb: "K / m * d ^ 3 \<le> P" "P \<le> K / m * g ^ 3"
    unfolding P_def d_def g_def Em [symmetric] by (rule pct_bounds_gen [OF mb u n])+
  have "K / m \<le> K / (M * d)"
    using K0 mM(1) Mpos d mpos by (intro divide_left_mono) simp_all
  then have "K / m * g ^ 3 \<le> K / (M * d) * g ^ 3"
    using g by (intro mult_right_mono) simp_all
  also have "\<dots> = K / M * (g ^ 3 / d)" by simp
  also have "\<dots> \<le> K / M * (1 + 1 / 2 ^ 50)"
  proof (rule mult_left_mono)
    show "g ^ 3 / d \<le> 1 + 1 / 2 ^ 50" using su d by (simp add: pos_divide_le_eq)
    show "0 \<le> K / M" using K0 Mpos by simp
  qed
  finally have up: "P \<le> K / M * (1 + 1 / 2 ^ 50)" using pb(2) by simp
  have "K / (M * g) \<le> K / m"
    using K0 mM(2) mpos Mpos g by (intro divide_left_mono) simp_all
  then have "K / (M * g) * d ^ 3 \<le> K / m * d ^ 3"
    using d by (intro mult_right_mono) simp_all
  then have "K / M * (d ^ 3 / g) \<le> P" using pb(1) by simp
  moreover have "K / M * (1 - 1 / 2 ^ 50) \<le> K / M * (d ^ 3 / g)"
  proof (rule mult_left_mono)
    show "1 - 1 / 2 ^ 50 \<le> d ^ 3 / g" using sd g by (simp add: pos_le_divide_eq)
    show "0 \<le> K / M" using K0 Mpos by simp
  qed
  ultimately have down: "K / M * (1 - 1 / 2 ^ 50) \<le> P" by simp
  have KM: "K / M = u / M / n * 100" by (simp add: K_def)
  have "\<bar>P - K / M\<bar> \<le> K / M / 2 ^ 50"
    using up down by (simp add: abs_le_iff algebra_simps)
  then have "\<bar>P - u / M / n * 100\<bar> \<le> u / M / n * 100 / 2 ^ 50"
    unfolding KM .
  then show ?thesis unfolding P_def m_def M_def .
qed

text \<open>
  C1, as stated, fails: the code computes the percentage in doubles, where each quotient
  and the product are rounded, and \<open>is_stale\<close> compares the rounded percentage. For 93
  units sold of 900 added in 31 days and the threshold 10, the percentage of the claim is
  exactly 10, which is not below the threshold; the code computes 9.999999999999998 and
  reports the variant stale. The field \<open>months_live\<close> moreover holds the months rounded
  to two decimals: for a product published at the evaluation date it is 0.03, below the
  floor 0.033 of the claim.
\<close>

theorem stale_analysis_formula_counterexample:
  "is_stale (calculatePercentageBasedStaleAnalysis 93 900 0 2678400000 10)
   \<and> \<not> ((93 / max (real_of_int \<lceil>real_of_int (2678400000 - 0) / (1000 * 60 * 60 * 24)\<rceil> / 30)
                  (33 / 1000)) / 900 * 100 < (10::real))
   \<and> months_live (calculatePercentageBasedStaleAnalysis 93 900 0 0 10)
       < max (real_of_int \<lceil>real_of_int (0 - 0) / (1000 * 60 * 60 * 24)\<rceil> / 30) (33 / 1000)"
proof -
  have ms: "fl 2678400000 = 2678400000"
    by (rule fl_eval [where e = "- 21", THEN trans]) (simp_all add: pow2_def rne_def Let_def)
  have dy: "fl 31 = 31"
    by (rule fl_eval [where e = "- 48", THEN trans]) (simp_all add: pow2_def rne_def Let_def)
  have m: "fl (31 / 30) = 4653719614949513 / 4503599627370496"
    by (rule fl_eval [where e = "- 52", THEN trans]) (simp_all add: pow2_def rne_def Let_def)
  have a: "fl (418834765345456128 / 4653719614949513) = 6333186975989759 / 70368744177664"
    by (rule fl_eval [where e = "- 46", THEN trans]) (simp_all add: pow2_def rne_def Let_def)
  have b: "fl (6333186975989759 / 63331869759897600) = 900719925474099 / 9007199254740992"
    by (rule fl_eval [where e = "- 56", THEN trans]) (simp_all add: pow2_def rne_def Let_def)
  have p: "fl (22517998136852475 / 2251799813685248) = 5629499534213119 / 562949953421312"
    by (rule fl_eval [where e = "- 49", THEN trans]) (simp_all add: pow2_def rne_def Let_def)
  have c1: "fl (29723757540645275 / 9007199254740992) = 7430939385161319 / 2251799813685248"
    by (rule fl_eval [where e = "- 51", THEN trans]) (simp_all add: pow2_def rne_def Let_def)
  have c2: "fl (3 / 100) = 1080863910568919 / 36028797018963968"
    by (rule fl_eval [where e = "- 58", THEN trans]) (simp_all add: pow2_def rne_def Let_def)
  have A: "is_stale (calculatePercentageBasedStaleAnalysis 93 900 0 2678400000 10)"
    by (simp add: is_stale_eq MILLISECONDS_PER_DAY_def DAYS_PER_MONTH_def
        MINIMUM_MONTHS_LIVE_value Math_ceil_def ms dy m a b p)
  have B: "\<not> ((93 / max (real_of_int \<lceil>real_of_int (2678400000 - 0) / (1000 * 60 * 60 * 24)\<rceil> / 30)
                  (33 / 1000)) / 900 * 100 < (10::real))"
    by simp
  have C: "months_live (calculatePercentageBasedStaleAnalysis 93 900 0 0 10)
       < max (real_of_int \<lceil>real_of_int (0 - 0) / (1000 * 60 * 60 * 24)\<rceil> / 30) (33 / 1000)"
    by (simp add: calculatePercentageBasedStaleAnalysis_def Let_def MILLISECONDS_PER_DAY_def
        DAYS_PER_MONTH_def MINIMUM_MONTHS_LIVE_value Math_ceil_def round2_def Math_round_def
        c1 c2)
  show ?thesis using A B C by blast
qed

text \<open>
  C1, amended. With months the larger of (the days live, rounded up to whole days, over
  30) and 0.033, and pct the quotient units sold / months / total inventory \<times> 100 when the
  total inventory is above 0 and 0 otherwise, every operation rounded to the nearest
  double in the order the code performs them: \<open>is_stale\<close> is (pct < threshold), the
  fields \<open>months_live\<close> and \<open>percent_sold_per_month\<close> hold months and pct rounded to two
  decimals by \<open>Math.round(x * 100) / 100\<close>, the threshold is reported as given, and with
  the total inventory 0 the variant is stale exactly when the threshold is above 0. For a
  publish date not after the evaluation date and less than \<open>2^53\<close> milliseconds before
  it, and units sold and a total inventory between 1 and \<open>2^53\<close>, pct differs from the
  exact percentage of the claim by at most the fraction \<open>2^-50\<close> of it.
\<close>

theorem stale_analysis_formula:
  "(let months = max (fl (real_of_int \<lceil>fl (fl (of_int c - of_int p) / (1000 * 60 * 60 * 24))\<rceil> / 30))
                     (fl (33 / 1000));
        pct = (if n > 0 then fl (fl (fl (u / months) / n) * 100) else 0);
        exact = u / max (real_of_int \<lceil>real_of_int (c - p) / (1000 * 60 * 60 * 24)\<rceil> / 30)
                        (33 / 1000) / n * 100;
        r = calculatePercentageBasedStaleAnalysis u n p c t
    in is_stale r = (pct < t)
       \<and> months_live r = round2 months
       \<and> percent_sold_per_month r = round2 pct
       \<and> threshold_percent_used r = t
       \<and> (p \<le> c \<longrightarrow> c - p < 2 ^ 53 \<longrightarrow> 1 \<le> u \<longrightarrow> u \<le> 2 ^ 53 \<longrightarrow> 1 \<le> n \<longrightarrow> n \<le> 2 ^ 53
            \<longrightarrow> \<bar>pct - exact\<bar> \<le> exact / 2 ^ 50))
   \<and> is_stale (calculatePercentageBasedStaleAnalysis u 0 p c t) = (0 < t)"
proof -
  have close: "p \<le> c \<longrightarrow> c - p < 2 ^ 53 \<longrightarrow> 1 \<le> u \<longrightarrow> u \<le> 2 ^ 53 \<longrightarrow> 1 \<le> n \<longrightarrow> n \<le> 2 ^ 53
      \<longrightarrow> \<bar>(if n > 0 then fl (fl (fl (u / max (fl (Math_ceil (fl (fl (of_int c - of_int p)
                / MILLISECONDS_PER_DAY)) / DAYS_PER_MONTH)) MINIMUM_MONTHS_LIVE) / n) * 100) else 0)
          - u / max (real_of_int \<lceil>real_of_int (c - p) / (1000 * 60 * 60 * 24)\<rceil> / 30) (33 / 1000)
              / n * 100\<bar>
         \<le> u / max (real_of_int \<lceil>real_of_int (c - p) / (1000 * 60 * 60 * 24)\<rceil> / 30) (33 / 1000)
              / n * 100 / 2 ^ 50"
  proof (intro impI)
    assume h: "p \<le> c" "c - p < 2 ^ 53" "1 \<le> u" "u \<le> 2 ^ 53" "1 \<le> n" "n \<le> 2 ^ 53"
    then have "n > 0" by simp
    then show "\<bar>(if n > 0 then fl (fl (fl (u / max (fl (Math_ceil (fl (fl (of_int c - of_int p)
                / MILLISECONDS_PER_DAY)) / DAYS_PER_MONTH)) MINIMUM_MONTHS_LIVE) / n) * 100) else 0)
          - u / max (real_of_int \<lceil>real_of_int (c - p) / (1000 * 60 * 60 * 24)\<rceil> / 30) (33 / 1000)
              / n * 100\<bar>
         \<le> u / max (real_of_int \<lceil>real_of_int (c - p) / (1000 * 60 * 60 * 24)\<rceil> / 30) (33 / 1000)
              / n * 100 / 2 ^ 50"
      using pct_close [OF h] by (simp only: if_True)
  qed
  have fields: "(let months = max (fl (real_of_int \<lceil>fl (fl (of_int c - of_int p) / (1000 * 60 * 60 * 24))\<rceil> / 30))
                     (fl (33 / 1000));
        pct = (if n > 0 then fl (fl (fl (u / months) / n) * 100) else 0);
        r = calculatePercentageBasedStaleAnalysis u n p c t
    in is_stale r = (pct < t)
       \<and> months_live r = round2 months
       \<and> percent_sold_per_month r = round2 pct
       \<and> threshold_percent_used r = t)
   \<and> is_stale (calculatePercentageBasedStaleAnalysis u 0 p c t) = (0 < t)"
    by (simp add: calculatePercentageBasedStaleAnalysis_def Let_def Math_ceil_def
        MILLISECONDS_PER_DAY_def DAYS_PER_MONTH_def MINIMUM_MONTHS_LIVE_def)
  show ?thesis
    using fields
      close [unfolded Math_ceil_def MILLISECONDS_PER_DAY_def DAYS_PER_MONTH_def
        MINIMUM_MONTHS_LIVE_def]
    unfolding Let_def by blast
qed

theorem stale_analysis_formula_witness:
  "((0::int) \<le> 2678400000 \<and> (2678400000::int) - 0 < 2 ^ 53
    \<and> (1::real) \<le> 93 \<and> (93::real) \<le> 2 ^ 53 \<and> (1::real) \<le> 900 \<and> (900::real) \<le> 2 ^ 53)
   \<and> \<bar>fl (fl (fl (93 / max (fl (real_of_int
               \<lceil>fl (fl (of_int 2678400000 - of_int 0) / (1000 * 60 * 60 * 24))\<rceil> / 30))
             (fl (33 / 1000))) / 900) * 100) - 10\<bar> \<le> 10 / 2 ^ 50"
  using stale_analysis_formula [where u = 93 and n = 900 and p = 0 and c = 2678400000
      and t = 10]
  by (simp add: Let_def)

section \<open>Percentage-based stale analysis: monotonicity\<close>

lemma pct_bounds:
  fixes u m n :: real
  assumes m: "1 / 32 \<le> m" "m \<le> 2 ^ 30" and u: "1 \<le> u" "u \<le> n" and n: "n \<le> 2 ^ 53"
  shows "u / m / n * 100 * (1 - 1 / 2 ^ 53) ^ 3 \<le> fl (fl (fl (u / m) / n) * 100)"
    and "fl (fl (fl (u / m) / n) * 100) \<le> u / m / n * 100 * (1 + 1 / 2 ^ 53) ^ 3"
proof -
  have a: "u \<le> 2 ^ 53" using u n by simp
  have b: "1 \<le> n" using u by simp
  show "u / m / n * 100 * (1 - 1 / 2 ^ 53) ^ 3 \<le> fl (fl (fl (u / m) / n) * 100)"
    by (rule pct_bounds_gen(1) [OF m u(1) a b n])
  show "fl (fl (fl (u / m) / n) * 100) \<le> u / m / n * 100 * (1 + 1 / 2 ^ 53) ^ 3"
    by (rule pct_bounds_gen(2) [OF m u(1) a b n])
qed

lemma share_mono:
  fixes u1 u2 :: nat and m :: real
  assumes "0 \<le> i" and "1 \<le> u1" and "u1 \<le> u2" and "0 < m"
  shows "real u1 / m / of_int (i + int u1) * 100 \<le> real u2 / m / of_int (i + int u2) * 100"
proof -
  define a b j :: real where "a = real u1" and "b = real u2" and "j = of_int i"
  have ab: "1 \<le> a" "a \<le> b" "0 \<le> j" using assms by (simp_all add: a_def b_def j_def)
  have "a * j \<le> b * j" using ab by (intro mult_right_mono) simp_all
  then have "a * (j + b) \<le> b * (j + a)" by (simp add: algebra_simps)
  then have "a / (j + a) \<le> b / (j + b)" using ab by (simp add: field_simps)
  then have "a / (j + a) / m \<le> b / (j + b) / m"
    using assms(4) by (intro divide_right_mono) simp_all
  then have "a / m / (j + a) \<le> b / m / (j + b)" by (simp add: mult.commute)
  then have "a / m / (j + a) * 100 \<le> b / m / (j + b) * 100" by (rule mult_right_mono) simp
  then show ?thesis by (simp add: a_def b_def j_def)
qed

lemma rounding_slack:
  "(1 - 1 / 2 ^ 50) * (1 + 1 / 2 ^ 53) ^ 3 \<le> (1 - 1 / 2 ^ 53 :: real) ^ 3"
  by (simp add: power3_eq_cube)

text \<open>
  C2, as stated, fails in its second part, for two reasons. The percentage is computed in
  doubles: with the current inventory 0 every exact percentage is the same, and the
  rounded one is not. At 250 days live and the threshold 12, the variant is not stale at
  1 unit sold (the code computes 12) and stale at 9 units sold (the code computes
  11.999999999999998). And the pipeline reads the current inventory from
  \<open>variant.inventory_quantity\<close> as it is: with the inventory -1 of an oversold variant,
  360 days live and the threshold 10, the variant is not stale at 2 units sold (total 1)
  and stale at 20 units sold (total 19).
\<close>

theorem stale_monotone_counterexample:
  "(\<not> is_stale (calculatePercentageBasedStaleAnalysis 1 (0 + 1) 0 (250 * 86400000) 12)
    \<and> is_stale (calculatePercentageBasedStaleAnalysis 9 (0 + 9) 0 (250 * 86400000) 12)
    \<and> (1::real) \<le> 9)
   \<and> (\<not> is_stale (calculatePercentageBasedStaleAnalysis 2 (- 1 + 2) 0 (360 * 86400000) 10)
    \<and> is_stale (calculatePercentageBasedStaleAnalysis 20 (- 1 + 20) 0 (360 * 86400000) 10)
    \<and> (2::real) \<le> 20)"
proof -
  have f0: "fl 21600000000 = 21600000000"
    by (rule fl_eval [where e = "- 18", THEN trans]) (simp_all add: pow2_def rne_def Let_def)
  have f1: "fl 250 = 250"
    by (rule fl_eval [where e = "- 45", THEN trans]) (simp_all add: pow2_def rne_def Let_def)
  have f2: "fl (25 / 3) = 4691249611844267 / 562949953421312"
    by (rule fl_eval [where e = "- 49", THEN trans]) (simp_all add: pow2_def rne_def Let_def)
  have f3: "fl (562949953421312 / 4691249611844267) = 1080863910568919 / 9007199254740992"
    by (rule fl_eval [where e = "- 56", THEN trans]) (simp_all add: pow2_def rne_def Let_def)
  have f4: "fl (1080863910568919 / 9007199254740992) = 1080863910568919 / 9007199254740992"
    by (rule fl_eval [where e = "- 56", THEN trans]) (simp_all add: pow2_def rne_def Let_def)
  have f5: "fl (27021597764222975 / 2251799813685248) = 12"
    by (rule fl_eval [where e = "- 49", THEN trans]) (simp_all add: pow2_def rne_def Let_def)
  have f6: "fl (5066549580791808 / 4691249611844267) = 4863887597560135 / 4503599627370496"
    by (rule fl_eval [where e = "- 52", THEN trans]) (simp_all add: pow2_def rne_def Let_def)
  have f7: "fl (4863887597560135 / 40532396646334464) = 8646911284551351 / 72057594037927936"
    by (rule fl_eval [where e = "- 56", THEN trans]) (simp_all add: pow2_def rne_def Let_def)
  have f8: "fl (216172782113783775 / 18014398509481984) = 6755399441055743 / 562949953421312"
    by (rule fl_eval [where e = "- 49", THEN trans]) (simp_all add: pow2_def rne_def Let_def)
  have f9: "fl 31104000000 = 31104000000"
    by (rule fl_eval [where e = "- 18", THEN trans]) (simp_all add: pow2_def rne_def Let_def)
  have f10: "fl 360 = 360"
    by (rule fl_eval [where e = "- 44", THEN trans]) (simp_all add: pow2_def rne_def Let_def)
  have f11: "fl 12 = 12"
    by (rule fl_eval [where e = "- 49", THEN trans]) (simp_all add: pow2_def rne_def Let_def)
  have f12: "fl (1 / 6) = 6004799503160661 / 36028797018963968"
    by (rule fl_eval [where e = "- 55", THEN trans]) (simp_all add: pow2_def rne_def Let_def)
  have f13: "fl (6004799503160661 / 36028797018963968) = 6004799503160661 / 36028797018963968"
    by (rule fl_eval [where e = "- 55", THEN trans]) (simp_all add: pow2_def rne_def Let_def)
  have f14: "fl (150119987579016525 / 9007199254740992) = 2345624805922133 / 140737488355328"
    by (rule fl_eval [where e = "- 48", THEN trans]) (simp_all add: pow2_def rne_def Let_def)
  have f15: "fl (5 / 3) = 7505999378950827 / 4503599627370496"
    by (rule fl_eval [where e = "- 52", THEN trans]) (simp_all add: pow2_def rne_def Let_def)
  have f16: "fl (7505999378950827 / 85568392920039424) = 6320841582274381 / 72057594037927936"
    by (rule fl_eval [where e = "- 56", THEN trans]) (simp_all add: pow2_def rne_def Let_def)
  have f17: "fl (158021039556859525 / 18014398509481984) = 1234539371537965 / 140737488355328"
    by (rule fl_eval [where e = "- 49", THEN trans]) (simp_all add: pow2_def rne_def Let_def)
  show ?thesis
    by (simp add: is_stale_eq MILLISECONDS_PER_DAY_def DAYS_PER_MONTH_def
        MINIMUM_MONTHS_LIVE_value Math_ceil_def
        f0 f1 f2 f3 f4 f5 f6 f7 f8 f9 f10 f11 f12 f13 f14 f15 f16 f17)
qed

text \<open>
  C2, amended. (1) For fixed units sold, inventory and dates, raising the threshold never
  turns a stale variant non-stale. (2) For a fixed current inventory and fixed dates, with
  the total inventory taken as current inventory plus units sold, a variant that is not
  stale with no unit sold is not stale with any number of units sold. (3) For a fixed
  current inventory that is not negative, a total inventory of at most \<open>2^53\<close> and dates
  at most \<open>2^54\<close> milliseconds apart, a variant that is not stale at the threshold t is,
  with more units sold, not stale at any threshold t' at most \<open>t - |t| / 2^50\<close>: more
  units sold turn a non-stale variant stale only within the rounding error of the
  percentage.
\<close>

theorem stale_monotone:
  fixes u1 u2 :: nat
  shows "(t1 \<le> t2 \<longrightarrow> is_stale (calculatePercentageBasedStaleAnalysis u n p c t1)
            \<longrightarrow> is_stale (calculatePercentageBasedStaleAnalysis u n p c t2))
       \<and> (\<not> is_stale (calculatePercentageBasedStaleAnalysis 0 (of_int i) p c t)
            \<longrightarrow> \<not> is_stale (calculatePercentageBasedStaleAnalysis (real u2) (of_int (i + int u2)) p c t))
       \<and> (0 \<le> i \<longrightarrow> u1 \<le> u2
            \<longrightarrow> real_of_int (i + int u2) \<le> 2 ^ 53
            \<longrightarrow> real_of_int c - real_of_int p \<le> 2 ^ 54
            \<longrightarrow> t' \<le> t - \<bar>t\<bar> / 2 ^ 50
            \<longrightarrow> \<not> is_stale (calculatePercentageBasedStaleAnalysis (real u1) (of_int (i + int u1)) p c t)
            \<longrightarrow> \<not> is_stale (calculatePercentageBasedStaleAnalysis (real u2) (of_int (i + int u2)) p c t'))"
proof (intro conjI impI)
  assume "t1 \<le> t2" "is_stale (calculatePercentageBasedStaleAnalysis u n p c t1)"
  then show "is_stale (calculatePercentageBasedStaleAnalysis u n p c t2)"
    unfolding is_stale_eq by linarith
next
  define m where "m = max (fl (Math_ceil (fl (fl (of_int c - of_int p) / MILLISECONDS_PER_DAY))
      / DAYS_PER_MONTH)) MINIMUM_MONTHS_LIVE"
  have mpos: "0 < m" unfolding m_def by (simp add: MINIMUM_MONTHS_LIVE_value less_max_iff_disj)
  assume "\<not> is_stale (calculatePercentageBasedStaleAnalysis 0 (of_int i) p c t)"
  then have "t \<le> 0" by (simp add: is_stale_zero_units)
  moreover have "0 \<le> (if real_of_int (i + int u2) > 0
      then fl (fl (fl (real u2 / m) / real_of_int (i + int u2)) * 100) else 0)"
    using mpos by (intro pct_nonneg) simp_all
  ultimately show "\<not> is_stale (calculatePercentageBasedStaleAnalysis (real u2) (of_int (i + int u2)) p c t)"
    unfolding is_stale_eq m_def [symmetric] by linarith
next
  define m where "m = max (fl (Math_ceil (fl (fl (of_int c - of_int p) / MILLISECONDS_PER_DAY))
      / DAYS_PER_MONTH)) MINIMUM_MONTHS_LIVE"
  define P where "P = (\<lambda>(w::nat). if real_of_int (i + int w) > 0
      then fl (fl (fl (real w / m) / real_of_int (i + int w)) * 100) else 0)"
  define E where "E = (\<lambda>(w::nat). real w / m / real_of_int (i + int w) * 100)"
  assume i: "0 \<le> i" and le: "u1 \<le> u2"
    and n: "real_of_int (i + int u2) \<le> 2 ^ 53"
    and dates: "real_of_int c - real_of_int p \<le> 2 ^ 54"
    and t': "t' \<le> t - \<bar>t\<bar> / 2 ^ 50"
    and ns: "\<not> is_stale (calculatePercentageBasedStaleAnalysis (real u1) (of_int (i + int u1)) p c t)"
  have mb: "1 / 32 \<le> m" "m \<le> 2 ^ 30"
    unfolding m_def using months_bounds [OF dates] by simp_all
  have mpos: "0 < m" using mb(1) by (rule less_le_trans [rotated]) simp
  have t1: "t \<le> P u1" using ns unfolding is_stale_eq m_def [symmetric] P_def by simp
  have nonneg: "0 \<le> P u2" unfolding P_def using mpos by (intro pct_nonneg) simp_all
  have "t' \<le> P u2"
  proof (cases "0 < t \<and> 1 \<le> u1")
    case False
    have "P 0 = 0" by (simp add: P_def)
    then have "t \<le> 0" using False t1 by (cases "u1 = 0") simp_all
    moreover have "t' \<le> t" using t' by (rule order_trans) simp
    ultimately show ?thesis using nonneg by linarith
  next
    case True
    then have u1: "1 \<le> u1" and tpos: "0 < t" by simp_all
    have u2: "1 \<le> u2" using u1 le by simp
    have n1: "real_of_int (i + int u1) \<le> 2 ^ 53" using n le by simp
    have b1: "P u1 \<le> E u1 * (1 + 1 / 2 ^ 53) ^ 3"
      using pct_bounds(2) [OF mb, of "real u1" "real_of_int (i + int u1)"] u1 i n1
      by (simp add: P_def E_def)
    have b2: "E u2 * (1 - 1 / 2 ^ 53) ^ 3 \<le> P u2"
      using pct_bounds(1) [OF mb, of "real u2" "real_of_int (i + int u2)"] u2 i n
      by (simp add: P_def E_def)
    have mono: "E u1 \<le> E u2" unfolding E_def using i u1 le mpos by (rule share_mono)
    have E1: "0 \<le> E u1" using i mpos by (simp add: E_def)
    have "t * (1 - 1 / 2 ^ 50) \<le> P u1 * (1 - 1 / 2 ^ 50)"
      using t1 by (intro mult_right_mono) simp_all
    also have "\<dots> \<le> E u1 * (1 + 1 / 2 ^ 53) ^ 3 * (1 - 1 / 2 ^ 50)"
      using b1 by (intro mult_right_mono) simp_all
    also have "\<dots> = E u1 * ((1 - 1 / 2 ^ 50) * (1 + 1 / 2 ^ 53) ^ 3)"
      by (simp only: mult.assoc mult.commute mult.left_commute)
    also have "\<dots> \<le> E u1 * (1 - 1 / 2 ^ 53) ^ 3"
      using E1 rounding_slack by (rule mult_left_mono [rotated])
    also have "\<dots> \<le> E u2 * (1 - 1 / 2 ^ 53) ^ 3"
      using mono by (intro mult_right_mono) simp_all
    also have "\<dots> \<le> P u2" by (rule b2)
    finally have "t * (1 - 1 / 2 ^ 50) \<le> P u2" .
    moreover have "t - \<bar>t\<bar> / 2 ^ 50 = t * (1 - 1 / 2 ^ 50)"
      using tpos by (simp add: algebra_simps)
    ultimately show ?thesis using t' by linarith
  qed
  then show "\<not> is_stale (calculatePercentageBasedStaleAnalysis (real u2) (of_int (i + int u2)) p c t')"
    unfolding is_stale_eq m_def [symmetric] P_def by simp
qed

theorem stale_monotone_witness:
  "((9::real) \<le> 10
      \<and> is_stale (calculatePercentageBasedStaleAnalysis 10 100 0 (60 * 86400000) 9)
      \<and> is_stale (calculatePercentageBasedStaleAnalysis 10 100 0 (60 * 86400000) 10))
   \<and> (\<not> is_stale (calculatePercentageBasedStaleAnalysis 0 (of_int 60) 0 (60 * 86400000) 0)
      \<and> \<not> is_stale (calculatePercentageBasedStaleAnalysis (real 40) (of_int (60 + int 40)) 0 (60 * 86400000) 0))
   \<and> ((0::int) \<le> 60 \<and> (40::nat) \<le> 50
      \<and> real_of_int (60 + int 50) \<le> 2 ^ 53
      \<and> real_of_int (60 * 86400000) - real_of_int 0 \<le> 2 ^ 54
      \<and> (19::real) \<le> 20 - \<bar>20\<bar> / 2 ^ 50
      \<and> \<not> is_stale (calculatePercentageBasedStaleAnalysis (real 40) (of_int (60 + int 40)) 0 (60 * 86400000) 20)
      \<and> \<not> is_stale (calculatePercentageBasedStaleAnalysis (real 50) (of_int (60 + int 50)) 0 (60 * 86400000) 19))"
proof -
  have f0: "fl 5184000000 = 5184000000"
    by (rule fl_eval [where e = "- 20", THEN trans]) (simp_all add: pow2_def rne_def Let_def)
  have f1: "fl 60 = 60"
    by (rule fl_eval [where e = "- 47", THEN trans]) (simp_all add: pow2_def rne_def Let_def)
  have f2: "fl 2 = 2"
    by (rule fl_eval [where e = "- 51", THEN trans]) (simp_all add: pow2_def rne_def Let_def)
  have f3: "fl 5 = 5"
    by (rule fl_eval [where e = "- 50", THEN trans]) (simp_all add: pow2_def rne_def Let_def)
  have f4: "fl (1 / 20) = 3602879701896397 / 72057594037927936"
    by (rule fl_eval [where e = "- 57", THEN trans]) (simp_all add: pow2_def rne_def Let_def)
  have f5: "fl (90071992547409925 / 18014398509481984) = 5"
    by (rule fl_eval [where e = "- 50", THEN trans]) (simp_all add: pow2_def rne_def Let_def)
  have f6: "fl 20 = 20"
    by (rule fl_eval [where e = "- 48", THEN trans]) (simp_all add: pow2_def rne_def Let_def)
  have f7: "fl (1 / 5) = 3602879701896397 / 18014398509481984"
    by (rule fl_eval [where e = "- 55", THEN trans]) (simp_all add: pow2_def rne_def Let_def)
  have f8: "fl (90071992547409925 / 4503599627370496) = 20"
    by (rule fl_eval [where e = "- 48", THEN trans]) (simp_all add: pow2_def rne_def Let_def)
  have h1: "is_stale (calculatePercentageBasedStaleAnalysis 10 100 0 (60 * 86400000) 9)"
    by (simp add: is_stale_eq MILLISECONDS_PER_DAY_def DAYS_PER_MONTH_def
        MINIMUM_MONTHS_LIVE_value Math_ceil_def f0 f1 f2 f3 f4 f5)
  have h2: "\<not> is_stale (calculatePercentageBasedStaleAnalysis 0 (of_int 60) 0 (60 * 86400000) 0)"
    by (simp add: is_stale_zero_units)
  have h3: "\<not> is_stale (calculatePercentageBasedStaleAnalysis (real 40) (of_int (60 + int 40)) 0 (60 * 86400000) 20)"
    by (simp add: is_stale_eq MILLISECONDS_PER_DAY_def DAYS_PER_MONTH_def
        MINIMUM_MONTHS_LIVE_value Math_ceil_def f0 f1 f2 f6 f7 f8)
  show ?thesis
    using h1 h2 h3
      stale_monotone [where ?t1.0 = 9 and ?t2.0 = 10 and u = 10 and n = 100 and p = 0
        and c = "60 * 86400000" and i = 60 and ?u1.0 = 40 and ?u2.0 = 50 and t = 20 and t' = 19]
      stale_monotone [where ?t1.0 = 9 and ?t2.0 = 10 and u = 10 and n = 100 and p = 0
        and c = "60 * 86400000" and i = 60 and ?u1.0 = 40 and ?u2.0 = 40 and t = 0 and t' = 0]
    by simp
qed

section \<open>Suggestion engine: the rules and their outputs\<close>

lemma types_inventory_rule:
  "map stype (inventory_rule s d) =
     (if s = 0 then [CRITICAL_INVENTORY]
      else if js_le d 7 then [LOW_INVENTORY]
      else if js_le d 30 then [INVENTORY_WARNING]
      else if js_gt d 180 then [OVERSTOCK]
      else [])"
  by (simp add: inventory_rule_def)

lemma types_performance_rule:
  "map stype (performance_rule r t) =
     (if r = 0 then [NO_SALES]
      else if r < t * (3 / 10) then [POOR_PERFORMANCE]
      else if r < t then [BELOW_TARGET]
      else if r \<ge> t * 2 then [HIGH_PERFORMER]
      else [])"
  by (simp add: performance_rule_def)

lemma types_trend_rule:
  "map stype (trend_rule a) =
     (if a < - (3 / 10) then [DECLINING_TREND]
      else if a > 3 / 10 then [POSITIVE_MOMENTUM]
      else [])"
  by (simp add: trend_rule_def)

lemma types_pricing_rule:
  "map stype (pricing_rule r t p) = (if r \<ge> t \<and> p > 0 then [PRICING_OPPORTUNITY] else [])"
  by (simp add: pricing_rule_def Let_def)

lemma types_seasonal_rule:
  "map stype (seasonal_rule x) = (if x > 1 / 2 then [SEASONAL_PLANNING] else [])"
  by (simp add: seasonal_rule_def)

lemma types_bundling_rule:
  "map stype (bundling_rule r t revenue) = (if r < t \<and> revenue > 0 then [BUNDLING_OPPORTUNITY] else [])"
  by (simp add: bundling_rule_def)

lemma suggestion_types_generate:
  "suggestion_types (generateVariantSuggestions v parent r t s d revenue ml acc seas sa tq) =
     map stype (inventory_rule s d) @ map stype (performance_rule r t)
     @ map stype (trend_rule acc)
     @ map stype (pricing_rule r t (case price v of None \<Rightarrow> 0 | Some x \<Rightarrow> x))
     @ map stype (seasonal_rule seas) @ map stype (bundling_rule r t revenue)"
  by (simp add: suggestion_types_def generateVariantSuggestions_def Let_def)

lemma performance_part:
  "filter (\<lambda>k. k \<in> set performance_types)
     (suggestion_types (generateVariantSuggestions v parent r t s d revenue ml acc seas sa tq)) =
   map stype (performance_rule r t)"
  unfolding suggestion_types_generate types_inventory_rule types_performance_rule
    types_trend_rule types_pricing_rule types_seasonal_rule types_bundling_rule
    performance_types_def
  by simp

lemma inventory_part:
  "filter (\<lambda>k. k \<in> set inventory_types)
     (suggestion_types (generateVariantSuggestions v parent r t s d revenue ml acc seas sa tq)) =
   map stype (inventory_rule s d)"
  unfolding suggestion_types_generate types_inventory_rule types_performance_rule
    types_trend_rule types_pricing_rule types_seasonal_rule types_bundling_rule
    inventory_types_def
  by simp

lemma in_performance_types:
  "k \<in> set performance_types \<Longrightarrow>
   k \<in> set (suggestion_types (generateVariantSuggestions v parent r t s d revenue ml acc seas sa tq))
     \<longleftrightarrow> k \<in> set (map stype (performance_rule r t))"
  using arg_cong [OF performance_part [of v parent r t s d revenue ml acc seas sa tq], of set]
  by auto

lemma in_inventory_types:
  "k \<in> set inventory_types \<Longrightarrow>
   k \<in> set (suggestion_types (generateVariantSuggestions v parent r t s d revenue ml acc seas sa tq))
     \<longleftrightarrow> k \<in> set (map stype (inventory_rule s d))"
  using arg_cong [OF inventory_part [of v parent r t s d revenue ml acc seas sa tq], of set]
  by auto

text \<open>The rate that \<open>calculateFocusedVariantAnalytics\<close> hands to the suggestion engine is never
  negative.\<close>

lemma out_rate_nonneg:
  "0 \<le> ps_monthly_sales_rate (summary (intelligent_suggestions
          (calculateFocusedVariantAnalytics gm now v orders parent st)))"
  by (simp add: calculateFocusedVariantAnalytics_def generateVariantSuggestions_def Let_def
      fl_nonneg)



section \<open>Sales totals and the zero-sales case\<close>

lemma foldl_add_line_item_units:
  "totalQuantitySold (foldl (add_line_item vid d) acc items) =
     totalQuantitySold acc + sum_list (map units (filter (\<lambda>i. variant_id i = vid) items))"
  by (induction items arbitrary: acc) (simp_all add: add_line_item_def)

lemma foldl_add_order_units:
  "totalQuantitySold (foldl (add_order vid) acc orders) =
     totalQuantitySold acc + sum_list (map units (matching_items vid orders))"
  by (induction orders arbitrary: acc)
     (simp_all add: add_order_def matching_items_def foldl_add_line_item_units)

lemma sold_sales_of_orders:
  "totalQuantitySold (sales_of_orders vid orders) = sum_list (map units (matching_items vid orders))"
  by (simp add: sales_of_orders_def foldl_add_order_units)

lemma no_match_sales:
  assumes "\<forall>ord \<in> set orders. \<forall>item \<in> set (line_items ord). variant_id item \<noteq> vid"
  shows "sales_of_orders vid orders =
     \<lparr> totalQuantitySold = 0, totalRevenue = 0, firstSaleDate = None, lastSaleDate = None \<rparr>"
proof -
  have item: "foldl (add_line_item vid d) acc items = acc"
    if "\<forall>item \<in> set items. variant_id item \<noteq> vid" for d acc items
    using that by (induction items arbitrary: acc) (simp_all add: add_line_item_def)
  have "foldl (add_order vid) acc orders = acc" for acc
    using assms by (induction orders arbitrary: acc) (simp_all add: add_order_def item)
  then show ?thesis by (simp add: sales_of_orders_def)
qed

lemma no_match_zero_units:
  assumes "\<forall>ord \<in> set orders. \<forall>item \<in> set (line_items ord). variant_id item \<noteq> vid"
  shows "totalQuantitySold (sales_of_orders vid orders) = 0"
proof -
  have "matching_items vid orders = []"
    using assms by (auto simp: matching_items_def filter_empty_conv)
  then show ?thesis by (simp add: sold_sales_of_orders)
qed

lemma out_total_quantity_sold:
  "total_quantity_sold (calculateFocusedVariantAnalytics gm now v orders parent st) =
     totalQuantitySold (sales_of_orders (variant_ident v) orders)"
  by (simp add: calculateFocusedVariantAnalytics_def Let_def)

lemma out_total_revenue:
  "total_revenue (calculateFocusedVariantAnalytics gm now v orders parent st) =
     round2 (totalRevenue (sales_of_orders (variant_ident v) orders))"
  by (simp add: calculateFocusedVariantAnalytics_def Let_def)

lemma round2_0: "round2 0 = 0"
  by (simp add: round2_def Math_round_def)

lemma out_monthly_sales_rate_zero:
  "totalQuantitySold (sales_of_orders (variant_ident v) orders) = 0 \<Longrightarrow>
   monthly_sales_rate (calculateFocusedVariantAnalytics gm now v orders parent st) = 0"
  by (simp add: calculateFocusedVariantAnalytics_def Let_def round2_0)

lemma out_turnover_zero:
  "totalQuantitySold (sales_of_orders (variant_ident v) orders) = 0 \<Longrightarrow>
   inventory_turnover_rate (calculateFocusedVariantAnalytics gm now v orders parent st) = 0"
  by (simp add: calculateFocusedVariantAnalytics_def Let_def round2_0)

lemma out_days_zero:
  "totalQuantitySold (sales_of_orders (variant_ident v) orders) = 0 \<Longrightarrow>
   days_of_stock_remaining (calculateFocusedVariantAnalytics gm now v orders parent st) = Num 0"
  by (simp add: calculateFocusedVariantAnalytics_def Let_def daysOfStockRemaining_of_def
      Math_round_def)

lemma out_is_stale_zero:
  "totalQuantitySold (sales_of_orders (variant_ident v) orders) = 0 \<Longrightarrow>
   is_stale_flag (calculateFocusedVariantAnalytics gm now v orders parent st) =
     (if 0 < (case st of None \<Rightarrow> 10 | Some t \<Rightarrow> if t = 0 then 10 else t) then 1 else 0)"
  by (simp add: calculateFocusedVariantAnalytics_def Let_def is_stale_zero_units)

lemma out_suggestions_zero:
  "totalQuantitySold (sales_of_orders (variant_ident v) orders) = 0 \<Longrightarrow>
   \<exists>t rev ml acc seas sa tq.
     intelligent_suggestions (calculateFocusedVariantAnalytics gm now v orders parent st) =
       generateVariantSuggestions v parent 0 t
         (of_int (case inventory_quantity v of None \<Rightarrow> 0 | Some q \<Rightarrow> q)) (Num 0)
         rev ml acc seas sa tq"
  by (simp add: calculateFocusedVariantAnalytics_def Let_def daysOfStockRemaining_of_def) blast


lemma no_sales_in_output:
  "NO_SALES \<in> set (suggestion_types
      (generateVariantSuggestions v parent 0 t s d revenue ml acc seas sa tq))"
  by (simp add: in_performance_types performance_types_def types_performance_rule)

lemma no_match_analytics:
  assumes "\<forall>ord \<in> set orders. \<forall>item \<in> set (line_items ord). variant_id item \<noteq> variant_ident v"
  shows "let out = calculateFocusedVariantAnalytics gm now v orders parent st
         in total_quantity_sold out = 0 \<and> total_revenue out = 0 \<and> monthly_sales_rate out = 0
          \<and> inventory_turnover_rate out = 0
          \<and> ((case st of None \<Rightarrow> True | Some t \<Rightarrow> 0 < t) \<longrightarrow> is_stale_flag out = 1)
          \<and> NO_SALES \<in> set (suggestion_types (intelligent_suggestions out))"
proof -
  define out where "out = calculateFocusedVariantAnalytics gm now v orders parent st"
  have z: "totalQuantitySold (sales_of_orders (variant_ident v) orders) = 0"
    by (rule no_match_zero_units [OF assms])
  have "total_quantity_sold out = 0"
    by (simp add: out_def out_total_quantity_sold z)
  moreover have "total_revenue out = 0"
    by (simp add: out_def out_total_revenue no_match_sales [OF assms] round2_0)
  moreover have "monthly_sales_rate out = 0"
    unfolding out_def by (rule out_monthly_sales_rate_zero [OF z])
  moreover have "inventory_turnover_rate out = 0"
    unfolding out_def by (rule out_turnover_zero [OF z])
  moreover have "(case st of None \<Rightarrow> True | Some t \<Rightarrow> 0 < t) \<longrightarrow> is_stale_flag out = 1"
    unfolding out_def out_is_stale_zero [OF z] by (auto split: option.splits)
  moreover have "NO_SALES \<in> set (suggestion_types (intelligent_suggestions out))"
    using out_suggestions_zero [OF z, of gm now parent st] no_sales_in_output
    unfolding out_def by metis
  ultimately show ?thesis unfolding Let_def out_def [symmetric] by blast
qed

text \<open>
  C5. On an empty order list, and on every order list without a line item of the variant,
  the units sold, the revenue, the monthly sales rate and the inventory turnover rate are
  0, the variant is stale under the default threshold and under every threshold above 0,
  and the suggestions contain NO_SALES. The stale analysis itself, given 0 units sold and
  a threshold above 0, answers stale.
\<close>

theorem zero_orders_analytics:
  "(let out = calculateFocusedVariantAnalytics gm now v [] parent st
    in total_quantity_sold out = 0 \<and> total_revenue out = 0 \<and> monthly_sales_rate out = 0
     \<and> inventory_turnover_rate out = 0
     \<and> ((case st of None \<Rightarrow> True | Some t \<Rightarrow> 0 < t) \<longrightarrow> is_stale_flag out = 1)
     \<and> NO_SALES \<in> set (suggestion_types (intelligent_suggestions out)))
   \<and> ((\<forall>ord \<in> set orders. \<forall>item \<in> set (line_items ord). variant_id item \<noteq> variant_ident v) \<longrightarrow>
       (let out = calculateFocusedVariantAnalytics gm now v orders parent st
        in total_quantity_sold out = 0 \<and> total_revenue out = 0 \<and> monthly_sales_rate out = 0
         \<and> inventory_turnover_rate out = 0
         \<and> ((case st of None \<Rightarrow> True | Some t \<Rightarrow> 0 < t) \<longrightarrow> is_stale_flag out = 1)
         \<and> NO_SALES \<in> set (suggestion_types (intelligent_suggestions out))))
   \<and> (0 < t \<longrightarrow> is_stale (calculatePercentageBasedStaleAnalysis 0 n p c t))"
proof (intro conjI impI)
  show "let out = calculateFocusedVariantAnalytics gm now v [] parent st
    in total_quantity_sold out = 0 \<and> total_revenue out = 0 \<and> monthly_sales_rate out = 0
     \<and> inventory_turnover_rate out = 0
     \<and> ((case st of None \<Rightarrow> True | Some t \<Rightarrow> 0 < t) \<longrightarrow> is_stale_flag out = 1)
     \<and> NO_SALES \<in> set (suggestion_types (intelligent_suggestions out))"
    by (rule no_match_analytics) simp
next
  assume "\<forall>ord \<in> set orders. \<forall>item \<in> set (line_items ord). variant_id item \<noteq> variant_ident v"
  then show "let out = calculateFocusedVariantAnalytics gm now v orders parent st
        in total_quantity_sold out = 0 \<and> total_revenue out = 0 \<and> monthly_sales_rate out = 0
         \<and> inventory_turnover_rate out = 0
         \<and> ((case st of None \<Rightarrow> True | Some t \<Rightarrow> 0 < t) \<longrightarrow> is_stale_flag out = 1)
         \<and> NO_SALES \<in> set (suggestion_types (intelligent_suggestions out))"
    by (rule no_match_analytics)
next
  assume "0 < t"
  then show "is_stale (calculatePercentageBasedStaleAnalysis 0 n p c t)"
    by (simp add: is_stale_zero_units)
qed

theorem zero_orders_analytics_witness:
  "(0::real) < 10
   \<and> is_stale_flag
     (calculateFocusedVariantAnalytics (\<lambda>d. 0) (60 * 86400000)
        \<lparr> variant_ident = 1, price = Some 20, inventory_quantity = Some 50 \<rparr> []
        \<lparr> published_at = Some 0, product_created_at = 0, product_type = None, tags = None \<rparr>
        None) = 1
   \<and> NO_SALES \<in> set (suggestion_types (intelligent_suggestions
     (calculateFocusedVariantAnalytics (\<lambda>d. 0) (60 * 86400000)
        \<lparr> variant_ident = 1, price = Some 20, inventory_quantity = Some 50 \<rparr>
        [\<lparr> created_at = 30 * 86400000,
           line_items = [\<lparr> variant_id = 2, quantity = Some 3, item_price = 5 \<rparr>] \<rparr>]
        \<lparr> published_at = Some 0, product_created_at = 0, product_type = None, tags = None \<rparr>
        None)))
   \<and> is_stale_flag
     (calculateFocusedVariantAnalytics (\<lambda>d. 0) (60 * 86400000)
        \<lparr> variant_ident = 1, price = Some 20, inventory_quantity = Some 50 \<rparr>
        [\<lparr> created_at = 30 * 86400000,
           line_items = [\<lparr> variant_id = 2, quantity = Some 3, item_price = 5 \<rparr>] \<rparr>]
        \<lparr> published_at = Some 0, product_created_at = 0, product_type = None, tags = None \<rparr>
        None) = 1
   \<and> is_stale (calculatePercentageBasedStaleAnalysis 0 50 0 (60 * 86400000) 10)"
  using zero_orders_analytics [of "\<lambda>d. 0" "60 * 86400000"
      "\<lparr> variant_ident = 1, price = Some 20, inventory_quantity = Some 50 \<rparr>"
      "\<lparr> published_at = Some 0, product_created_at = 0, product_type = None, tags = None \<rparr>"
      None
      "[\<lparr> created_at = 30 * 86400000,
           line_items = [\<lparr> variant_id = 2, quantity = Some 3, item_price = 5 \<rparr>] \<rparr>]"
      10 50 0 "60 * 86400000"]
  by (simp add: Let_def)

lemma out_days_finite:
  "\<exists>x. days_of_stock_remaining (calculateFocusedVariantAnalytics gm now v orders parent st) = Num x"
  by (simp add: calculateFocusedVariantAnalytics_def Let_def daysOfStockRemaining_of_def
      js_div_def)

lemma out_days_not_live:
  "days_live (calculateFocusedVariantAnalytics gm now v orders parent st) \<le> 0 \<Longrightarrow>
   days_of_stock_remaining (calculateFocusedVariantAnalytics gm now v orders parent st) = Num 0"
  by (simp add: calculateFocusedVariantAnalytics_def Let_def daysOfStockRemaining_of_def
      Math_round_def)

lemma stock_status_finite:
  "\<exists>x. daysRemaining (calculateStockStatus stock dailySales) = Num x"
  by (simp add: calculateStockStatus_def Let_def js_div_def)

text \<open>
  C6, as stated, fails: the division is guarded. With 50 units in stock and no order the
  daily sales rate is 0 and the days of stock remaining are 0, where the quotient
  50 / 0 itself would be an infinity.
\<close>

theorem unguarded_division_counterexample:
  "daily_sales_rate
     (calculateFocusedVariantAnalytics (\<lambda>d. 0) (60 * 86400000)
        \<lparr> variant_ident = 1, price = Some 20, inventory_quantity = Some 50 \<rparr> []
        \<lparr> published_at = Some 0, product_created_at = 0, product_type = None, tags = None \<rparr>
        None) = 0
   \<and> days_of_stock_remaining
     (calculateFocusedVariantAnalytics (\<lambda>d. 0) (60 * 86400000)
        \<lparr> variant_ident = 1, price = Some 20, inventory_quantity = Some 50 \<rparr> []
        \<lparr> published_at = Some 0, product_created_at = 0, product_type = None, tags = None \<rparr>
        None) = Num 0
   \<and> js_div 50 0 = PosInfinity"
  by (simp add: calculateFocusedVariantAnalytics_def Let_def daysOfStockRemaining_of_def
      sales_of_orders_def js_div_def Math_round_def round2_def)

text \<open>
  C6, amended. In \<open>calculateFocusedVariantAnalytics\<close> the division by the daily sales
  rate is guarded, as it is in \<open>calculateStockStatus\<close>: the days of stock remaining are
  the quotient when the rate is above 0 and 0 otherwise, so they are 0 when nothing was
  sold or the product is not yet live, and in both functions they are a finite number.
\<close>

theorem days_of_stock_guarded:
  "(let out = calculateFocusedVariantAnalytics gm now v orders parent st
    in (\<exists>x. days_of_stock_remaining out = Num x)
     \<and> (total_quantity_sold out = 0 \<or> days_live out \<le> 0
          \<longrightarrow> days_of_stock_remaining out = Num 0))
   \<and> daysOfStockRemaining_of cur avg = (if avg > 0 then Num (fl (cur / avg)) else Num 0)
   \<and> (\<exists>x. daysRemaining (calculateStockStatus stock dailySales) = Num x)"
proof (intro conjI)
  show "let out = calculateFocusedVariantAnalytics gm now v orders parent st
    in (\<exists>x. days_of_stock_remaining out = Num x)
     \<and> (total_quantity_sold out = 0 \<or> days_live out \<le> 0
          \<longrightarrow> days_of_stock_remaining out = Num 0)"
    unfolding Let_def
    using out_days_finite [of gm now v orders parent st]
      out_days_zero [of v orders gm now parent st]
      out_days_not_live [of gm now v orders parent st]
    by (auto simp: out_total_quantity_sold)
next
  show "daysOfStockRemaining_of cur avg = (if avg > 0 then Num (fl (cur / avg)) else Num 0)"
    by (simp add: daysOfStockRemaining_of_def js_div_def)
next
  show "\<exists>x. daysRemaining (calculateStockStatus stock dailySales) = Num x"
    by (rule stock_status_finite)
qed

theorem days_of_stock_guarded_witness:
  "total_quantity_sold
     (calculateFocusedVariantAnalytics (\<lambda>d. 0) (60 * 86400000)
        \<lparr> variant_ident = 1, price = Some 20, inventory_quantity = Some 50 \<rparr> []
        \<lparr> published_at = Some 0, product_created_at = 0, product_type = None, tags = None \<rparr>
        None) = 0
   \<and> days_of_stock_remaining
     (calculateFocusedVariantAnalytics (\<lambda>d. 0) (60 * 86400000)
        \<lparr> variant_ident = 1, price = Some 20, inventory_quantity = Some 50 \<rparr> []
        \<lparr> published_at = Some 0, product_created_at = 0, product_type = None, tags = None \<rparr>
        None) = Num 0"
  using days_of_stock_guarded [of "\<lambda>d. 0" "60 * 86400000"
      "\<lparr> variant_ident = 1, price = Some 20, inventory_quantity = Some 50 \<rparr>" "[]"
      "\<lparr> published_at = Some 0, product_created_at = 0, product_type = None, tags = None \<rparr>"
      None 50 0 50 0]
  by (simp add: Let_def out_total_quantity_sold sales_of_orders_def)

lemma low_inventory_in_output:
  "s \<noteq> 0 \<Longrightarrow> LOW_INVENTORY \<in> set (suggestion_types
      (generateVariantSuggestions v parent r t s (Num 0) revenue ml acc seas sa tq))"
  by (simp add: in_inventory_types inventory_types_def types_inventory_rule)

lemma status_in_output:
  "inventory_status (summary (generateVariantSuggestions v parent r t s d revenue ml acc seas sa tq))
     = getSimpleInventoryStatus d s"
  by (simp add: generateVariantSuggestions_def Let_def)

text \<open>
  C10. For a variant with a current inventory above 0 and orders without a line item of
  the variant, the days of stock remaining are reported as 0, the suggestions contain
  both NO_SALES and LOW_INVENTORY, and the inventory status is CRITICAL_LOW.
\<close>

theorem unsold_stock_reported_low:
  assumes "inventory_quantity v = Some q" and "0 < q"
    and "\<forall>ord \<in> set orders. \<forall>item \<in> set (line_items ord). variant_id item \<noteq> variant_ident v"
  shows "let out = calculateFocusedVariantAnalytics gm now v orders parent st
         in days_of_stock_remaining out = Num 0
          \<and> NO_SALES \<in> set (suggestion_types (intelligent_suggestions out))
          \<and> LOW_INVENTORY \<in> set (suggestion_types (intelligent_suggestions out))
          \<and> inventory_status (summary (intelligent_suggestions out)) = ''CRITICAL_LOW''"
proof -
  have z: "totalQuantitySold (sales_of_orders (variant_ident v) orders) = 0"
    by (rule no_match_zero_units [OF assms(3)])
  obtain t revenue ml acc seas sa tq where
    o: "intelligent_suggestions (calculateFocusedVariantAnalytics gm now v orders parent st) =
       generateVariantSuggestions v parent 0 t (of_int q) (Num 0) revenue ml acc seas sa tq"
    using out_suggestions_zero [OF z, of gm now parent st] assms(1) by auto
  have q: "real_of_int q \<noteq> 0" using assms(2) by simp
  show ?thesis
    unfolding Let_def o out_days_zero [OF z]
    using no_sales_in_output low_inventory_in_output [OF q] q
    by (simp add: status_in_output getSimpleInventoryStatus_def)
qed

theorem unsold_stock_reported_low_witness:
  "(0::int) < 50
   \<and> days_of_stock_remaining
     (calculateFocusedVariantAnalytics (\<lambda>d. 0) (60 * 86400000)
        \<lparr> variant_ident = 1, price = Some 20, inventory_quantity = Some 50 \<rparr>
        [\<lparr> created_at = 30 * 86400000,
           line_items = [\<lparr> variant_id = 2, quantity = Some 3, item_price = 5 \<rparr>] \<rparr>]
        \<lparr> published_at = Some 0, product_created_at = 0, product_type = None, tags = None \<rparr>
        None) = Num 0
   \<and> LOW_INVENTORY \<in> set (suggestion_types (intelligent_suggestions
     (calculateFocusedVariantAnalytics (\<lambda>d. 0) (60 * 86400000)
        \<lparr> variant_ident = 1, price = Some 20, inventory_quantity = Some 50 \<rparr>
        [\<lparr> created_at = 30 * 86400000,
           line_items = [\<lparr> variant_id = 2, quantity = Some 3, item_price = 5 \<rparr>] \<rparr>]
        \<lparr> published_at = Some 0, product_created_at = 0, product_type = None, tags = None \<rparr>
        None)))"
  using unsold_stock_reported_low [of
      "\<lparr> variant_ident = 1, price = Some 20, inventory_quantity = Some 50 \<rparr>" 50
      "[\<lparr> created_at = 30 * 86400000,
           line_items = [\<lparr> variant_id = 2, quantity = Some 3, item_price = 5 \<rparr>] \<rparr>]"
      "\<lambda>d. 0" "60 * 86400000"
      "\<lparr> published_at = Some 0, product_created_at = 0, product_type = None, tags = None \<rparr>"
      None]
  by (simp add: Let_def)

section \<open>Inventory suggestions and the inventory status\<close>

lemma out_inventory_part:
  "filter (\<lambda>k. k \<in> set inventory_types)
     (suggestion_types (intelligent_suggestions
        (calculateFocusedVariantAnalytics gm now v orders parent st))) =
   map stype
     (inventory_rule (of_int (current_quantity (calculateFocusedVariantAnalytics gm now v orders parent st)))
        (daysOfStockRemaining_of
           (of_int (current_quantity (calculateFocusedVariantAnalytics gm now v orders parent st)))
           (if days_live (calculateFocusedVariantAnalytics gm now v orders parent st) > 0
            then fl (real (total_quantity_sold
                            (calculateFocusedVariantAnalytics gm now v orders parent st))
                     / days_live (calculateFocusedVariantAnalytics gm now v orders parent st))
            else 0)))"
  by (simp add: calculateFocusedVariantAnalytics_def Let_def inventory_part)

text \<open>
  C4, as stated, fails where it asks for a stock above 0: the chain tests the stock
  against 0 only, and the pipeline reads \<open>variant.inventory_quantity\<close> as it is. For an
  oversold variant (inventory -5, 3 units sold in 60 days) the output holds
  LOW_INVENTORY although the stock is not above 0.
\<close>

theorem inventory_suggestions_counterexample:
  "LOW_INVENTORY \<in> set (suggestion_types (intelligent_suggestions
     (calculateFocusedVariantAnalytics (\<lambda>d. 0) (60 * 86400000)
        \<lparr> variant_ident = 1, price = Some 20, inventory_quantity = Some (- 5) \<rparr>
        [\<lparr> created_at = 30 * 86400000,
           line_items = [\<lparr> variant_id = 1, quantity = Some 3, item_price = 20 \<rparr>] \<rparr>]
        \<lparr> published_at = Some 0, product_created_at = 0, product_type = None, tags = None \<rparr>
        None)))
   \<and> current_quantity
     (calculateFocusedVariantAnalytics (\<lambda>d. 0) (60 * 86400000)
        \<lparr> variant_ident = 1, price = Some 20, inventory_quantity = Some (- 5) \<rparr>
        [\<lparr> created_at = 30 * 86400000,
           line_items = [\<lparr> variant_id = 1, quantity = Some 3, item_price = 20 \<rparr>] \<rparr>]
        \<lparr> published_at = Some 0, product_created_at = 0, product_type = None, tags = None \<rparr>
        None) = - 5
   \<and> \<not> (0::int) < - 5"
proof -
  let ?out = "calculateFocusedVariantAnalytics (\<lambda>d. 0) (60 * 86400000)
        \<lparr> variant_ident = 1, price = Some 20, inventory_quantity = Some (- 5) \<rparr>
        [\<lparr> created_at = 30 * 86400000,
           line_items = [\<lparr> variant_id = 1, quantity = Some 3, item_price = 20 \<rparr>] \<rparr>]
        \<lparr> published_at = Some 0, product_created_at = 0, product_type = None, tags = None \<rparr>
        None"
  have q: "current_quantity ?out = - 5"
    by (simp add: calculateFocusedVariantAnalytics_def Let_def)
  have n: "total_quantity_sold ?out = 3"
    by (simp add: out_total_quantity_sold sales_of_orders_def add_order_def add_line_item_def
        units_def)
  have d1: "fl 5184000000 = 5184000000"
    by (rule fl_eval [where e = "- 20", THEN trans]) (simp_all add: pow2_def rne_def Let_def)
  have d2: "fl 60 = 60"
    by (rule fl_eval [where e = "- 47", THEN trans]) (simp_all add: pow2_def rne_def Let_def)
  have d3: "fl (1 / 20) = 7205759403792794 / 144115188075855872"
    by (rule fl_eval [where e = "- 57", THEN trans]) (simp_all add: pow2_def rne_def Let_def)
  have l: "days_live ?out = 60"
    by (simp add: calculateFocusedVariantAnalytics_def Let_def Math_ceil_def d1 d2)
  have neg: "fl (- (5 * 144115188075855872 / 7205759403792794)) \<le> 0"
    by (rule fl_nonpos) simp
  have "filter (\<lambda>k. k \<in> set inventory_types) (suggestion_types (intelligent_suggestions ?out))
        = [LOW_INVENTORY]"
    unfolding out_inventory_part q n l
    using neg by (simp add: types_inventory_rule daysOfStockRemaining_of_def js_div_def d3)
  then have "LOW_INVENTORY \<in> set (filter (\<lambda>k. k \<in> set inventory_types)
        (suggestion_types (intelligent_suggestions ?out)))"
    by simp
  then have "LOW_INVENTORY \<in> set (suggestion_types (intelligent_suggestions ?out))"
    by simp
  then show ?thesis using q by simp
qed

text \<open>
  C4, amended. At most one of the four inventory suggestions appears: CRITICAL_INVENTORY
  exactly when s = 0, LOW_INVENTORY exactly when s \<noteq> 0 and d \<le> 7, INVENTORY_WARNING
  exactly when s \<noteq> 0 and 7 < d \<le> 30, OVERSTOCK exactly when s \<noteq> 0 and d > 180, and none
  exactly when s \<noteq> 0 and d is neither at most 30 nor above 180. The status of the
  summary is that of \<open>getSimpleInventoryStatus\<close>, which is one of the six labels, each
  label having its own condition, the six conditions excluding each other.
\<close>

theorem inventory_suggestions:
  "let out = generateVariantSuggestions v parent r t s d revenue ml acc seas sa tq
   in count_of inventory_types out \<le> 1
    \<and> (CRITICAL_INVENTORY \<in> set (suggestion_types out) \<longleftrightarrow> s = 0)
    \<and> (LOW_INVENTORY \<in> set (suggestion_types out) \<longleftrightarrow> s \<noteq> 0 \<and> js_le d 7)
    \<and> (INVENTORY_WARNING \<in> set (suggestion_types out) \<longleftrightarrow> s \<noteq> 0 \<and> js_gt d 7 \<and> js_le d 30)
    \<and> (OVERSTOCK \<in> set (suggestion_types out) \<longleftrightarrow> s \<noteq> 0 \<and> js_gt d 180)
    \<and> (count_of inventory_types out = 0 \<longleftrightarrow> s \<noteq> 0 \<and> \<not> js_le d 30 \<and> \<not> js_gt d 180)
    \<and> inventory_status (summary out) = getSimpleInventoryStatus d s
    \<and> getSimpleInventoryStatus d s \<in>
        {''OUT_OF_STOCK'', ''CRITICAL_LOW'', ''LOW'', ''OPTIMAL'', ''HIGH'', ''OVERSTOCKED''}
    \<and> (getSimpleInventoryStatus d s = ''OUT_OF_STOCK'' \<longleftrightarrow> s = 0)
    \<and> (getSimpleInventoryStatus d s = ''CRITICAL_LOW'' \<longleftrightarrow> s \<noteq> 0 \<and> js_le d 7)
    \<and> (getSimpleInventoryStatus d s = ''LOW'' \<longleftrightarrow> s \<noteq> 0 \<and> \<not> js_le d 7 \<and> js_le d 30)
    \<and> (getSimpleInventoryStatus d s = ''OPTIMAL'' \<longleftrightarrow> s \<noteq> 0 \<and> \<not> js_le d 30 \<and> js_le d 90)
    \<and> (getSimpleInventoryStatus d s = ''HIGH'' \<longleftrightarrow> s \<noteq> 0 \<and> \<not> js_le d 90 \<and> js_le d 180)
    \<and> (getSimpleInventoryStatus d s = ''OVERSTOCKED'' \<longleftrightarrow> s \<noteq> 0 \<and> \<not> js_le d 180)"
proof -
  define out where "out = generateVariantSuggestions v parent r t s d revenue ml acc seas sa tq"
  have c: "count_of inventory_types out = length (map stype (inventory_rule s d))"
    unfolding count_of_def out_def inventory_part ..
  have m: "\<And>k. k \<in> set inventory_types \<Longrightarrow>
      k \<in> set (suggestion_types out) \<longleftrightarrow> k \<in> set (map stype (inventory_rule s d))"
    unfolding out_def by (rule in_inventory_types)
  have k: "CRITICAL_INVENTORY \<in> set inventory_types" "LOW_INVENTORY \<in> set inventory_types"
    "INVENTORY_WARNING \<in> set inventory_types" "OVERSTOCK \<in> set inventory_types"
    by (simp_all add: inventory_types_def)
  have st: "inventory_status (summary out) = getSimpleInventoryStatus d s"
    unfolding out_def by (rule status_in_output)
  have le: "js_le d 7 \<Longrightarrow> js_le d 30" "js_le d 30 \<Longrightarrow> js_le d 90" "js_le d 90 \<Longrightarrow> js_le d 180"
    by (cases d; simp)+
  have gt: "js_gt d 7 \<longleftrightarrow> \<not> js_le d 7 \<and> d \<noteq> NaN" "js_gt d 180 \<longleftrightarrow> \<not> js_le d 180 \<and> d \<noteq> NaN"
    "\<not> js_le NaN 30"
    by (cases d; auto)+
  have A: "count_of inventory_types out \<le> 1
    \<and> (CRITICAL_INVENTORY \<in> set (suggestion_types out) \<longleftrightarrow> s = 0)
    \<and> (LOW_INVENTORY \<in> set (suggestion_types out) \<longleftrightarrow> s \<noteq> 0 \<and> js_le d 7)
    \<and> (INVENTORY_WARNING \<in> set (suggestion_types out) \<longleftrightarrow> s \<noteq> 0 \<and> js_gt d 7 \<and> js_le d 30)
    \<and> (OVERSTOCK \<in> set (suggestion_types out) \<longleftrightarrow> s \<noteq> 0 \<and> js_gt d 180)
    \<and> (count_of inventory_types out = 0 \<longleftrightarrow> s \<noteq> 0 \<and> \<not> js_le d 30 \<and> \<not> js_gt d 180)"
    unfolding c m [OF k(1)] m [OF k(2)] m [OF k(3)] m [OF k(4)] types_inventory_rule
    using le gt by auto
  have B: "getSimpleInventoryStatus d s \<in>
        {''OUT_OF_STOCK'', ''CRITICAL_LOW'', ''LOW'', ''OPTIMAL'', ''HIGH'', ''OVERSTOCKED''}"
    by (simp add: getSimpleInventoryStatus_def)
  have C: "(getSimpleInventoryStatus d s = ''OUT_OF_STOCK'' \<longleftrightarrow> s = 0)
    \<and> (getSimpleInventoryStatus d s = ''CRITICAL_LOW'' \<longleftrightarrow> s \<noteq> 0 \<and> js_le d 7)
    \<and> (getSimpleInventoryStatus d s = ''LOW'' \<longleftrightarrow> s \<noteq> 0 \<and> \<not> js_le d 7 \<and> js_le d 30)
    \<and> (getSimpleInventoryStatus d s = ''OPTIMAL'' \<longleftrightarrow> s \<noteq> 0 \<and> \<not> js_le d 30 \<and> js_le d 90)
    \<and> (getSimpleInventoryStatus d s = ''HIGH'' \<longleftrightarrow> s \<noteq> 0 \<and> \<not> js_le d 90 \<and> js_le d 180)
    \<and> (getSimpleInventoryStatus d s = ''OVERSTOCKED'' \<longleftrightarrow> s \<noteq> 0 \<and> \<not> js_le d 180)"
    unfolding getSimpleInventoryStatus_def using le by auto
  show ?thesis unfolding Let_def out_def [symmetric] using A B C st by blast
qed

section \<open>Pricing opportunity\<close>

lemma pricing_part:
  "filter (\<lambda>x. stype x = PRICING_OPPORTUNITY)
     (suggestions (generateVariantSuggestions v parent r t s d revenue ml acc seas sa tq)) =
   pricing_rule r t (case price v of None \<Rightarrow> 0 | Some x \<Rightarrow> x)"
  by (simp add: generateVariantSuggestions_def Let_def inventory_rule_def performance_rule_def
      trend_rule_def pricing_rule_def seasonal_rule_def bundling_rule_def)

lemma pricing_rule_value:
  "pricing_rule r t p =
     (if r \<ge> t \<and> p > 0 then
        [\<lparr> stype = PRICING_OPPORTUNITY,
           action = [Str ''Test price increase to $'', Val (toFixed 2 (fl (p + fl (Math_round (fl (fl (p * fl (15 / 100)) * 100)) / 100))))],
           reason = [Str ''Strong demand indicates pricing power''],
           priority = LOW \<rparr>]
      else [])"
  by (simp add: pricing_rule_def Let_def)

lemma pricing_type_in_output:
  "PRICING_OPPORTUNITY \<in> set (suggestion_types
      (generateVariantSuggestions v parent r t s d revenue ml acc seas sa tq))
   \<longleftrightarrow> r \<ge> t \<and> (case price v of None \<Rightarrow> 0 | Some x \<Rightarrow> x) > 0"
  unfolding suggestion_types_generate types_inventory_rule types_performance_rule
    types_trend_rule types_pricing_rule types_seasonal_rule types_bundling_rule
  by simp

text \<open>
  The stated price is within one cent, and the rounding error of four operations, of
  price \<times> 1.15: the increase is within half a cent of price \<times> 0.15, and \<open>toFixed(2)\<close>
  moves the sum by at most half a cent.
\<close>

lemma stated_price_close:
  assumes lo: "1 / 100 \<le> p" and hi: "p \<le> 2 ^ 30"
  shows "\<bar>toFixed 2 (fl (p + fl (Math_round (fl (fl (p * fl (15 / 100)) * 100)) / 100))) - p * (115 / 100)\<bar> \<le> 1 / 100 + p / 2 ^ 51"
proof -
  define x1 where "x1 = p * (5404319552844595 / 36028797018963968)"
  define y1 where "y1 = fl x1"
  define y2 where "y2 = fl (y1 * 100)"
  define k where "k = \<lfloor>y2 + 1 / 2\<rfloor>"
  define inc where "inc = fl (of_int k / 100)"
  define s where "s = fl (p + inc)"
  define T where "T = real_of_int \<lfloor>s * 100 + 1 / 2\<rfloor> / 100"
  have r1: "1 / 2 ^ 100 \<le> x1" "x1 \<le> 2 ^ 100" using lo hi by (simp_all add: x1_def)
  have y1: "x1 * (1 - 1 / 2 ^ 53) \<le> y1" "y1 \<le> x1 * (1 + 1 / 2 ^ 53)"
    unfolding y1_def by (rule fl_bounds [OF r1])+
  have r2: "1 / 2 ^ 100 \<le> y1 * 100" "y1 * 100 \<le> 2 ^ 100"
    using y1 lo hi by (simp_all add: x1_def)
  have y2: "y1 * 100 * (1 - 1 / 2 ^ 53) \<le> y2" "y2 \<le> y1 * 100 * (1 + 1 / 2 ^ 53)"
    unfolding y2_def by (rule fl_bounds [OF r2])+
  have k: "y2 - 1 / 2 \<le> of_int k" "of_int k \<le> y2 + 1 / 2"
    unfolding k_def by linarith+
  have y2pos: "0 \<le> y2" using y2(1) y1(1) lo by (simp add: x1_def)
  then have kpos: "0 \<le> k" unfolding k_def by simp
  have inc: "of_int k / 100 * (1 - 1 / 2 ^ 53) \<le> inc \<and> inc \<le> of_int k / 100 * (1 + 1 / 2 ^ 53)"
  proof (cases "k = 0")
    case True
    then show ?thesis by (simp add: inc_def)
  next
    case False
    then have "1 \<le> k" using kpos by simp
    then have k1: "(1::real) \<le> of_int k" by simp
    have r3: "1 / 2 ^ 100 \<le> real_of_int k / 100" "real_of_int k / 100 \<le> 2 ^ 100"
      using k1 k(2) y2(2) y1(2) hi by (simp_all add: x1_def)
    show ?thesis unfolding inc_def using fl_bounds [OF r3] by simp
  qed
  have incpos: "0 \<le> inc" unfolding inc_def using kpos by (intro fl_nonneg) simp
  have r4: "1 / 2 ^ 100 \<le> p + inc" "p + inc \<le> 2 ^ 100"
    using lo incpos inc k(2) y2(2) y1(2) hi by (simp_all add: x1_def)
  have s: "(p + inc) * (1 - 1 / 2 ^ 53) \<le> s" "s \<le> (p + inc) * (1 + 1 / 2 ^ 53)"
    unfolding s_def by (rule fl_bounds [OF r4])+
  have spos: "0 \<le> s" unfolding s_def using lo incpos by (intro fl_nonneg) simp
  have T: "s - 1 / 200 \<le> T" "T \<le> s + 1 / 200"
    unfolding T_def by linarith+
  have "\<bar>T - p * (115 / 100)\<bar> \<le> 1 / 100 + p / 2 ^ 51"
    using T s inc k y2 y1 lo unfolding x1_def by (simp add: abs_le_iff)
  moreover have "toFixed 2 (fl (p + fl (Math_round (fl (fl (p * fl (15 / 100)) * 100)) / 100))) = T"
    using spos
    by (simp add: toFixed_def T_def s_def inc_def k_def y2_def y1_def x1_def fl_15_100
        Math_round_def)
  ultimately show ?thesis by simp
qed

text \<open>
  C7, as stated, fails: the code rounds the increase alone, in doubles, and adds it to the
  price. For the price 1.50 the product 1.5 \<times> 0.15 \<times> 100 is computed as
  22.499999999999996, the increase is rounded to 0.22 and the suggestion states 1.72;
  1.50 \<times> 1.15 = 1.725 rounded half up to two decimals is 1.73.
\<close>

theorem pricing_opportunity_counterexample:
  "map action (filter (\<lambda>x. stype x = PRICING_OPPORTUNITY)
     (suggestions (generateVariantSuggestions
        \<lparr> variant_ident = 1, price = Some (150 / 100), inventory_quantity = Some 50 \<rparr>
        \<lparr> published_at = Some 0, product_created_at = 0, product_type = None, tags = None \<rparr>
        12 10 50 (Num 100) 200 2 0 0 None None)))
     = [[Str ''Test price increase to $'', Val (172 / 100)]]
   \<and> real_of_int \<lfloor>150 / 100 * (115 / 100) * 100 + 1 / 2\<rfloor> / 100 = 173 / 100
   \<and> (172 / 100 :: real) \<noteq> 173 / 100"
proof -
  have c15: "fl (3 / 20) = 5404319552844595 / 36028797018963968"
    by (rule fl_eval [where e = "- 55", THEN trans]) (simp_all add: pow2_def rne_def Let_def)
  have q1: "fl (16212958658533785 / 72057594037927936) = 2026619832316723 / 9007199254740992"
    by (rule fl_eval [where e = "- 55", THEN trans]) (simp_all add: pow2_def rne_def Let_def)
  have q2: "fl (50665495807918075 / 2251799813685248) = 6333186975989759 / 281474976710656"
    by (rule fl_eval [where e = "- 48", THEN trans]) (simp_all add: pow2_def rne_def Let_def)
  have q3: "fl (11 / 50) = 7926335344172073 / 36028797018963968"
    by (rule fl_eval [where e = "- 55", THEN trans]) (simp_all add: pow2_def rne_def Let_def)
  have q4: "fl (61969530872618025 / 36028797018963968) = 7746191359077253 / 4503599627370496"
    by (rule fl_eval [where e = "- 52", THEN trans]) (simp_all add: pow2_def rne_def Let_def)
  show ?thesis
    by (simp add: pricing_part pricing_rule_def Let_def toFixed_def Math_round_def
        c15 q1 q2 q3 q4)
qed

text \<open>
  C7, amended. PRICING_OPPORTUNITY appears exactly when the monthly sales rate is at least
  the threshold and the price is above 0; the price it states is the sum, printed with two
  decimals, of the price and \<open>Math.round(price * 0.15 * 100) / 100\<close>, each operation
  rounded to the nearest double; for a price between 0.01 and \<open>2^30\<close> it differs from
  price \<times> 1.15 by at most 0.01 + price / \<open>2^51\<close>.
\<close>

theorem pricing_opportunity:
  "let p = (case price v of None \<Rightarrow> 0 | Some x \<Rightarrow> x);
       out = generateVariantSuggestions v parent r t s d revenue ml acc seas sa tq;
       stated = toFixed 2 (fl (p + fl (Math_round (fl (fl (p * fl (15 / 100)) * 100)) / 100)))
   in (PRICING_OPPORTUNITY \<in> set (suggestion_types out) \<longleftrightarrow> r \<ge> t \<and> p > 0)
    \<and> filter (\<lambda>x. stype x = PRICING_OPPORTUNITY) (suggestions out) =
        (if r \<ge> t \<and> p > 0 then
           [\<lparr> stype = PRICING_OPPORTUNITY,
              action = [Str ''Test price increase to $'', Val stated],
              reason = [Str ''Strong demand indicates pricing power''],
              priority = LOW \<rparr>]
         else [])
    \<and> (1 / 100 \<le> p \<longrightarrow> p \<le> 2 ^ 30 \<longrightarrow>
         \<bar>stated - p * (115 / 100)\<bar> \<le> 1 / 100 + p / 2 ^ 51)"
proof -
  define p where "p = (case price v of None \<Rightarrow> 0 | Some x \<Rightarrow> x)"
  define out where "out = generateVariantSuggestions v parent r t s d revenue ml acc seas sa tq"
  define stated where "stated = toFixed 2 (fl (p + fl (Math_round (fl (fl (p * fl (15 / 100)) * 100)) / 100)))"
  have a: "PRICING_OPPORTUNITY \<in> set (suggestion_types out) \<longleftrightarrow> r \<ge> t \<and> p > 0"
    unfolding out_def p_def by (rule pricing_type_in_output)
  have b: "filter (\<lambda>x. stype x = PRICING_OPPORTUNITY) (suggestions out) =
        (if r \<ge> t \<and> p > 0 then
           [\<lparr> stype = PRICING_OPPORTUNITY,
              action = [Str ''Test price increase to $'', Val stated],
              reason = [Str ''Strong demand indicates pricing power''],
              priority = LOW \<rparr>]
         else [])"
    unfolding out_def p_def stated_def pricing_part by (rule pricing_rule_value)
  have c: "1 / 100 \<le> p \<longrightarrow> p \<le> 2 ^ 30 \<longrightarrow>
         \<bar>stated - p * (115 / 100)\<bar> \<le> 1 / 100 + p / 2 ^ 51"
    unfolding stated_def using stated_price_close by blast
  show ?thesis
    unfolding Let_def p_def [symmetric] out_def [symmetric] stated_def [symmetric]
    using a b c by blast
qed

theorem pricing_opportunity_witness:
  "(1 / 100 \<le> (20::real) \<and> (20::real) \<le> 2 ^ 30)
   \<and> PRICING_OPPORTUNITY \<in> set (suggestion_types
       (generateVariantSuggestions
          \<lparr> variant_ident = 1, price = Some 20, inventory_quantity = Some 50 \<rparr>
          \<lparr> published_at = Some 0, product_created_at = 0, product_type = None, tags = None \<rparr>
          12 10 50 (Num 100) 200 2 0 0 None None))
   \<and> \<bar>toFixed 2 (fl (20 + fl (Math_round (fl (fl (20 * fl (15 / 100)) * 100)) / 100)))
        - 20 * (115 / 100)\<bar> \<le> 1 / 100 + 20 / 2 ^ 51"
  using pricing_opportunity [where
      v = "\<lparr> variant_ident = 1, price = Some 20, inventory_quantity = Some 50 \<rparr>"
      and parent = "\<lparr> published_at = Some 0, product_created_at = 0, product_type = None,
        tags = None \<rparr>"
      and r = 12 and t = 10 and s = 50 and d = "Num 100" and revenue = 200 and ml = 2
      and acc = 0 and seas = 0 and sa = None and tq = None]
  by (simp add: Let_def)

section \<open>Category resolver: tags first, never an exception\<close>

text \<open>\<open>js_includes\<close> is the contiguous-sublist relation of the library.\<close>

lemma js_includes_sublist: "js_includes s sub \<longleftrightarrow> sublist sub s"
  by (induction s) (simp_all add: sublist_Cons_right)

lemma getCategoryFromTags_first:
  assumes "\<exists>c \<in> set PREDEFINED_CATEGORIES. sublist c (toLowerCase t)"
  shows "\<exists>i < length PREDEFINED_CATEGORIES.
           getCategoryFromTags (Some t) = Some (PREDEFINED_CATEGORIES ! i)
           \<and> sublist (PREDEFINED_CATEGORIES ! i) (toLowerCase t)
           \<and> (\<forall>j < i. \<not> sublist (PREDEFINED_CATEGORIES ! j) (toLowerCase t))"
proof -
  have ne: "t \<noteq> []"
    using assms by (auto simp: PREDEFINED_CATEGORIES_def toLowerCase_def)
  obtain c where c: "find (\<lambda>category. js_includes (toLowerCase t) category) PREDEFINED_CATEGORIES
      = Some c"
    using assms by (cases "find (\<lambda>category. js_includes (toLowerCase t) category)
      PREDEFINED_CATEGORIES") (auto simp: find_None_iff js_includes_sublist)
  then obtain i where i: "i < length PREDEFINED_CATEGORIES"
    "js_includes (toLowerCase t) (PREDEFINED_CATEGORIES ! i)" "c = PREDEFINED_CATEGORIES ! i"
    "\<forall>j < i. \<not> js_includes (toLowerCase t) (PREDEFINED_CATEGORIES ! j)"
    unfolding find_Some_iff by blast
  have g: "getCategoryFromTags (Some t) = Some c"
    using c ne by (simp add: getCategoryFromTags_def)
  have "getCategoryFromTags (Some t) = Some (PREDEFINED_CATEGORIES ! i)
           \<and> sublist (PREDEFINED_CATEGORIES ! i) (toLowerCase t)
           \<and> (\<forall>j < i. \<not> sublist (PREDEFINED_CATEGORIES ! j) (toLowerCase t))"
    using g i(2,3,4) unfolding js_includes_sublist by simp
  then show ?thesis using i(1) by blast
qed

lemma resolver_never_raises:
  "\<exists>c n. getProductCategoryFromAI env p = (Inr c, n) \<and> n \<le> 1"
  by (auto simp: getProductCategoryFromAI_def classify_with_ai_def
      split: option.splits sum.splits prod.splits fetch_outcome.splits if_splits)

lemma resolver_fallback:
  assumes "getCategoryFromTags (tags q) = None"
    and "AI_CATEGORY_API_BASE_URL env = Some url" and "url \<noteq> []"
    and "classify_existing_categories env \<in> {Rejected, NotOk, BadJson}
         \<or> (\<exists>r. classify_existing_categories env = Json r \<and> extract_category r = None)"
  shows "getProductCategoryFromAI env q = (Inr (getProductCategory (product_type q)), 1)"
  using assms
  by (auto simp: getProductCategoryFromAI_def classify_with_ai_def)

lemma resolver_unconfigured:
  assumes "getCategoryFromTags (tags q) = None"
    and "AI_CATEGORY_API_BASE_URL env = None \<or> AI_CATEGORY_API_BASE_URL env = Some []"
  shows "getProductCategoryFromAI env q = (Inr (getProductCategory (product_type q)), 0)"
  using assms
  by (auto simp: getProductCategoryFromAI_def classify_with_ai_def)

lemma resolver_tag_match:
  assumes "tags p = Some t" and "\<exists>c \<in> set PREDEFINED_CATEGORIES. sublist c (toLowerCase t)"
  shows "\<exists>i < length PREDEFINED_CATEGORIES.
           getProductCategoryFromAI env p = (Inr (JString (PREDEFINED_CATEGORIES ! i)), 0)
           \<and> sublist (PREDEFINED_CATEGORIES ! i) (toLowerCase t)
           \<and> (\<forall>j < i. \<not> sublist (PREDEFINED_CATEGORIES ! j) (toLowerCase t))"
proof -
  obtain i where i: "i < length PREDEFINED_CATEGORIES"
      "getCategoryFromTags (Some t) = Some (PREDEFINED_CATEGORIES ! i)"
      "sublist (PREDEFINED_CATEGORIES ! i) (toLowerCase t)"
      "\<forall>j < i. \<not> sublist (PREDEFINED_CATEGORIES ! j) (toLowerCase t)"
    using getCategoryFromTags_first [OF assms(2)] by blast
  have "getProductCategoryFromAI env p = (Inr (JString (PREDEFINED_CATEGORIES ! i)), 0)"
    using i(2) assms(1) by (simp add: getProductCategoryFromAI_def)
  then show ?thesis using i by blast
qed

lemma general_when_unmapped:
  assumes "product_type p = None
     \<or> (\<exists>pt. product_type p = Some pt \<and> toLowerCase pt \<notin> fst ` set CATEGORY_MAPPING
           \<and> toLowerCase pt \<notin> set Object_prototype_names)"
  shows "getProductCategory (product_type p) = JString ''general''"
proof (cases "product_type p")
  case None
  then show ?thesis by (simp add: getProductCategory_def)
next
  case (Some pt)
  then have k: "toLowerCase pt \<notin> fst ` set CATEGORY_MAPPING"
    "toLowerCase pt \<notin> set Object_prototype_names" using assms by simp_all
  from k(1) have "map_of CATEGORY_MAPPING (toLowerCase pt) = None"
    by (simp only: map_of_eq_None_iff not_False_eq_True)
  then have "property_read CATEGORY_MAPPING (toLowerCase pt) = None"
    using k(2) by (simp add: property_read_def)
  then show ?thesis using Some by (simp add: getProductCategory_def)
qed

text \<open>
  The tags "Summer, FASHION essentials, food" resolve to "fashion" without a call, although
  "food" is contained too; a product without a matching tag and with an unmapped type
  resolves to "general" when the call is rejected.
\<close>

lemma resolver_examples:
  "getProductCategoryFromAI
     \<lparr> AI_CATEGORY_API_BASE_URL = Some ''http://ai'', classify_existing_categories = Rejected \<rparr>
     \<lparr> published_at = None, product_created_at = 0, product_type = Some ''Clothing'',
       tags = Some ''Summer, FASHION essentials, food'' \<rparr> = (Inr (JString ''fashion''), 0)
   \<and> getProductCategoryFromAI
     \<lparr> AI_CATEGORY_API_BASE_URL = Some ''http://ai'', classify_existing_categories = Rejected \<rparr>
     \<lparr> published_at = None, product_created_at = 0, product_type = Some ''Gadgets'',
       tags = Some ''sale, new'' \<rparr> = (Inr (JString ''general''), 1)"
  by (simp add: getProductCategoryFromAI_def classify_with_ai_def getCategoryFromTags_def
      getProductCategory_def property_read_def PREDEFINED_CATEGORIES_def CATEGORY_MAPPING_def
      Object_prototype_names_def toLowerCase_def lower_char_def)

text \<open>
  C8. The claim holds for the tag match (\<open>resolver_tag_match\<close>: first category of the list
  contained in the lower-cased tags, no call), for the absence of exceptions
  (\<open>resolver_never_raises\<close>) and for the fallback to the mapping (\<open>resolver_fallback\<close>),
  and the mapping answers "general" for a type that is neither a key of the mapping nor a
  name inherited from \<open>Object.prototype\<close> (\<open>general_when_unmapped\<close>). It breaks on the
  last point for the inherited names: for the unmapped product type "Constructor", with no
  matching tag and the call rejected, the resolver returns the inherited \<open>constructor\<close>
  member of the mapping object instead of "general".
\<close>

theorem category_fallback_inherited_name:
  "getProductCategoryFromAI
     \<lparr> AI_CATEGORY_API_BASE_URL = Some ''http://ai'', classify_existing_categories = Rejected \<rparr>
     \<lparr> published_at = None, product_created_at = 0, product_type = Some ''Constructor'',
       tags = Some ''sale, new'' \<rparr> = (Inr (JObject ''constructor''), 1)
   \<and> ''constructor'' \<notin> fst ` set CATEGORY_MAPPING
   \<and> getProductCategory (Some ''Constructor'') \<noteq> JString ''general''"
  by (simp add: getProductCategoryFromAI_def classify_with_ai_def getCategoryFromTags_def
      getProductCategory_def property_read_def PREDEFINED_CATEGORIES_def CATEGORY_MAPPING_def
      Object_prototype_names_def toLowerCase_def lower_char_def)

section \<open>Fetching all products: the page ceiling\<close>

lemma loop_calls_bound:
  "pageCount s \<le> 50 \<Longrightarrow> fst (getAllProducts_loop client s) \<le> 50"
proof (induction client s rule: getAllProducts_loop.induct)
  case (1 client s)
  show ?case
  proof (cases "hasNextPage s \<and> pageCount s < 50")
    case False
    have "getAllProducts_loop client s = (pageCount s, Inr s)"
      by (subst getAllProducts_loop.simps) (simp only: False if_False)
    then show ?thesis using "1.prems" by simp
  next
    case True
    show ?thesis
    proof (cases "client (pageCount s) (if pageInfo s = Some [] then None else pageInfo s)")
      case (Inl err)
      have "getAllProducts_loop client s = (pageCount s + 1, Inl err)"
        by (subst getAllProducts_loop.simps) (simp only: True if_True simp_thms Inl sum.case)
      then show ?thesis using True by simp
    next
      case (Inr response)
      note resp = Inr
      show ?thesis
      proof (cases "extractPagination (link response)")
        case (Inl err)
        have "getAllProducts_loop client s = (pageCount s + 1, Inl err)"
          by (subst getAllProducts_loop.simps) (simp only: True if_True simp_thms resp Inl sum.case)
        then show ?thesis using True by simp
      next
        case (Inr pg)
        have step: "getAllProducts_loop client s =
            getAllProducts_loop client
                \<lparr> allProducts = allProducts s @ products response,
                  pageInfo = nextPageInfo pg,
                  hasNextPage = (if length (products response) < 250 then False else hasNext pg),
                  pageCount = pageCount s + 1 \<rparr>"
          by (subst getAllProducts_loop.simps) (simp only: True if_True simp_thms resp Inr sum.case)
        have "fst (getAllProducts_loop client
                \<lparr> allProducts = allProducts s @ products response,
                  pageInfo = nextPageInfo pg,
                  hasNextPage = (if length (products response) < 250 then False else hasNext pg),
                  pageCount = pageCount s + 1 \<rparr>) \<le> 50"
          using True by (intro "1.IH" [OF True resp Inr]) simp
        then show ?thesis unfolding step .
      qed
    qed
  qed
qed

text \<open>The ceiling is reached: a client that always answers a full page with a next link is
  called 50 times.\<close>

lemma loop_greedy_client:
  "\<forall>n i. client n i = Inr \<lparr> products = replicate 250 x, link = Links (Some ''next'') \<rparr> \<Longrightarrow>
   hasNextPage s \<Longrightarrow> pageCount s \<le> 50 \<Longrightarrow> fst (getAllProducts_loop client s) = 50"
proof (induction client s rule: getAllProducts_loop.induct)
  case (1 client s)
  note c = "1.prems"(1)
  show ?case
  proof (cases "pageCount s < 50")
    case False
    then have "getAllProducts_loop client s = (pageCount s, Inr s)"
      by (subst getAllProducts_loop.simps) simp
    then show ?thesis using False "1.prems"(3) by simp
  next
    case True
    let ?r = "\<lparr> products = replicate 250 x, link = Links (Some ''next'') \<rparr>"
    let ?pg = "\<lparr> hasNext = True, nextPageInfo = Some ''next'' \<rparr>"
    let ?s = "\<lparr> allProducts = allProducts s @ products ?r,
                  pageInfo = nextPageInfo ?pg,
                  hasNextPage = (if length (products ?r) < 250 then False else hasNext ?pg),
                  pageCount = pageCount s + 1 \<rparr>"
    have t: "hasNextPage s \<and> pageCount s < 50" using True "1.prems"(2) by simp
    have r: "client (pageCount s) (if pageInfo s = Some [] then None else pageInfo s) = Inr ?r"
      using c by simp
    have p: "extractPagination (link ?r) = Inr ?pg"
      by (simp add: extractPagination_def)
    have step: "getAllProducts_loop client s = getAllProducts_loop client ?s"
      by (subst getAllProducts_loop.simps) (simp only: t if_True simp_thms r p sum.case)
    have "fst (getAllProducts_loop client ?s) = 50"
      using True c by (intro "1.IH" [OF t r p]) simp_all
    then show ?thesis unfolding step .
  qed
qed

lemma getAllProducts_greedy_client:
  assumes "\<forall>n i. client n i = Inr \<lparr> products = replicate 250 x, link = Links (Some ''next'') \<rparr>"
  shows "fst (getAllProducts client) = 50"
proof -
  have "fst (getAllProducts_loop client
          \<lparr> allProducts = [], pageInfo = None, hasNextPage = True, pageCount = 0 \<rparr>) = 50"
    by (rule loop_greedy_client [OF assms]) simp_all
  then show ?thesis
    by (auto simp: getAllProducts_def split: prod.splits sum.splits)
qed

text \<open>
  C9. Whatever the client answers at each call, also when every answer is a full page
  with a next link, \<open>getAllProducts\<close> returns, and it has made at most 50 calls to the
  client. (The loop is a total function: its termination is proved with the measure
  50 - pageCount.)
\<close>

theorem getAllProducts_at_most_50_fetches:
  "fst (getAllProducts client) \<le> 50"
proof -
  have "fst (getAllProducts_loop client
          \<lparr> allProducts = [], pageInfo = None, hasNextPage = True, pageCount = 0 \<rparr>) \<le> 50"
    by (rule loop_calls_bound) simp
  then show ?thesis
    by (auto simp: getAllProducts_def split: prod.splits sum.splits)
qed

end
